theory Spec2Isabelle
  imports Main "HOL-Library.Sublist"
begin

section \<open>Path model (gnmi.Path, gnmi.PathElem)\<close>

text \<open>
  A gNMI path is the ordered list \<open>path.Elem\<close>; each element has a \<open>Name\<close> and a
  \<open>Key\<close> map from parameter names to string values. A Go map lookup
  \<open>v, ok := m[k]\<close> is the map applied to the key: \<open>None\<close> is \<open>ok = false\<close>.
\<close>

record PathElem =
  Name :: string
  Key :: "string \<rightharpoonup> string"

type_synonym Path = "PathElem list"

text \<open>The plain Go errors (\<open>fmt.Errorf\<close>) of the classifiers in path_utils.go, one
  constructor per message; the formatted path of the message is left out.\<close>

datatype path_error =
    NotFilesystemPath
  | FilesystemPathNotSpecified
  | NotDiskSpacePath
  | UnknownDiskSpaceMetric string
  | InvalidDiskSpacePathStructure
  | InvalidDiskSpacePath
  | NotFirmwarePath
  | FirmwareDirectoryNotSpecified
  | NotFirmwareFilesPath
  | InvalidFirmwareFilesPathStructure
  | NotSonicImagePath
  | SonicImageDirectoryNotSpecified
  | NotSonicImageFilesPath
  | InvalidSonicImageFilesPathStructure

section \<open>Resource classifiers (pkg/server/gnmi/path_utils.go)\<close>

text \<open>\<open>path.Elem[i].Name\<close> is only read behind a length check (Go's \<open>&&\<close> is
  short-circuit), so every \<open>!\<close> below is in range where it is evaluated.\<close>

definition isFilesystemPath :: "Path \<Rightarrow> bool" where
  "isFilesystemPath path \<longleftrightarrow>
     length path \<ge> 3 \<and> Name (path ! 0) = ''sonic'' \<and> Name (path ! 1) = ''system''
       \<and> Name (path ! 2) = ''filesystem''"

definition extractFilesystemPath :: "Path \<Rightarrow> path_error + string" where
  "extractFilesystemPath path =
     (if \<not> isFilesystemPath path then Inl NotFilesystemPath
      else (case Key (path ! 2) ''path'' of
              None \<Rightarrow> Inl FilesystemPathNotSpecified
            | Some fsPath \<Rightarrow> Inr fsPath))"

definition isDiskSpacePath :: "Path \<Rightarrow> bool" where
  "isDiskSpacePath path \<longleftrightarrow>
     isFilesystemPath path \<and> length path \<ge> 4 \<and> Name (path ! 3) = ''disk-space''"

text \<open>\<open>getDiskSpaceField\<close> is the classifier of the path_utils.go that holds the
  firmware classifiers; \<open>validateDiskSpacePath\<close> is the one of the path_utils.go that
  holds the sonic-image classifiers, and the one \<open>handleDiskSpaceRequest\<close> calls.\<close>

definition getDiskSpaceField :: "Path \<Rightarrow> path_error + string" where
  "getDiskSpaceField path =
     (if \<not> isDiskSpacePath path then Inl NotDiskSpacePath
      else if length path = 4 then Inr ''both''
      else if length path = 5 then
        (if Name (path ! 4) = ''total-mb'' then Inr ''total''
         else if Name (path ! 4) = ''available-mb'' then Inr ''available''
         else Inl (UnknownDiskSpaceMetric (Name (path ! 4))))
      else Inl InvalidDiskSpacePathStructure)"

definition validateDiskSpacePath :: "Path \<Rightarrow> path_error option" where
  "validateDiskSpacePath path =
     (if \<not> isDiskSpacePath path then Some NotDiskSpacePath
      else if length path \<noteq> 4 then Some InvalidDiskSpacePath
      else None)"

definition isFirmwarePath :: "Path \<Rightarrow> bool" where
  "isFirmwarePath path \<longleftrightarrow>
     length path \<ge> 3 \<and> Name (path ! 0) = ''sonic'' \<and> Name (path ! 1) = ''system''
       \<and> Name (path ! 2) = ''firmware''"

definition extractFirmwareDirectory :: "Path \<Rightarrow> path_error + string" where
  "extractFirmwareDirectory path =
     (if \<not> isFirmwarePath path then Inl NotFirmwarePath
      else (case Key (path ! 2) ''directory'' of
              None \<Rightarrow> Inl FirmwareDirectoryNotSpecified
            | Some firmwareDir \<Rightarrow> Inr firmwareDir))"

definition isFirmwareFilesPath :: "Path \<Rightarrow> bool" where
  "isFirmwareFilesPath path \<longleftrightarrow>
     isFirmwarePath path \<and> length path \<ge> 4 \<and> Name (path ! 3) = ''files''"

definition getFirmwareFileField :: "Path \<Rightarrow> path_error + string" where
  "getFirmwareFileField path =
     (if \<not> isFirmwareFilesPath path then Inl NotFirmwareFilesPath
      else if length path = 4 then Inr ''list''
      else if length path = 5 then
        (if Name (path ! 4) = ''count'' then Inr ''count''
         else Inr (Name (path ! 4)))
      else Inl InvalidFirmwareFilesPathStructure)"

definition isSonicImagePath :: "Path \<Rightarrow> bool" where
  "isSonicImagePath path \<longleftrightarrow>
     length path \<ge> 3 \<and> Name (path ! 0) = ''sonic'' \<and> Name (path ! 1) = ''system''
       \<and> Name (path ! 2) = ''sonic-image''"

definition extractSonicImageDirectory :: "Path \<Rightarrow> path_error + string" where
  "extractSonicImageDirectory path =
     (if \<not> isSonicImagePath path then Inl NotSonicImagePath
      else (case Key (path ! 2) ''directory'' of
              None \<Rightarrow> Inl SonicImageDirectoryNotSpecified
            | Some sonicImageDir \<Rightarrow> Inr sonicImageDir))"

definition isSonicImageFilesPath :: "Path \<Rightarrow> bool" where
  "isSonicImageFilesPath path \<longleftrightarrow>
     isSonicImagePath path \<and> length path \<ge> 4 \<and> Name (path ! 3) = ''files''"

definition getSonicImageFileField :: "Path \<Rightarrow> path_error + string" where
  "getSonicImageFileField path =
     (if \<not> isSonicImageFilesPath path then Inl NotSonicImageFilesPath
      else if length path = 4 then Inr ''list''
      else if length path = 5 then
        (if Name (path ! 4) = ''count'' then Inr ''count''
         else Inr (Name (path ! 4)))
      else Inl InvalidSonicImageFilesPathStructure)"

section \<open>Go library functions on path strings (strings, path/filepath on Unix)\<close>

text \<open>\<open>strings.HasPrefix(s, prefix)\<close>: a plain comparison of characters.\<close>

definition HasPrefix :: "string \<Rightarrow> string \<Rightarrow> bool" where
  "HasPrefix s pre \<longleftrightarrow> prefix pre s"

text \<open>\<open>strings.Split(s, "/")\<close>: the fields between the separators; a string with
  \<open>n\<close> separators has \<open>n + 1\<close> fields, so the result is never empty.\<close>

fun split_sep :: "string \<Rightarrow> string list" where
  "split_sep [] = [[]]"
| "split_sep (c # cs) =
     (if c = CHR ''/'' then [] # split_sep cs
      else (case split_sep cs of [] \<Rightarrow> [[c]] | e # es \<Rightarrow> (c # e) # es))"

text \<open>\<open>strings.Join(elems, "/")\<close>.\<close>

fun join_sep :: "string list \<Rightarrow> string" where
  "join_sep [] = []"
| "join_sep [e] = e"
| "join_sep (e # f # es) = e @ CHR ''/'' # join_sep (f # es)"

text \<open>
  \<open>filepath.Clean\<close>, by the rules of its documentation: separators are collapsed,
  every \<open>.\<close> element is dropped, an inner \<open>..\<close> is dropped together with the
  element before it, a \<open>..\<close> that begins a rooted path is dropped, a \<open>..\<close> that
  cannot be resolved in a relative path is kept; the empty result is \<open>.\<close>.
  \<open>clean_elem\<close> is one step of the library's loop on the next element; \<open>out\<close> is the
  output so far, as the list of its elements with the last one first. The library's
  \<open>out.w > dotdot\<close> (there is an element to remove) is: \<open>out\<close> is not empty and its
  last element is not a kept \<open>..\<close>.
\<close>

fun clean_elem :: "bool \<Rightarrow> string list \<Rightarrow> string \<Rightarrow> string list" where
  "clean_elem rooted out e =
     (if e = [] \<or> e = ''.'' then out
      else if e = ''..'' then
        (case out of
           [] \<Rightarrow> (if rooted then [] else [''..''])
         | t # ts \<Rightarrow> (if t = ''..'' then (if rooted then out else ''..'' # out) else ts))
      else e # out)"

definition Clean :: "string \<Rightarrow> string" where
  "Clean p =
     (if p = [] then ''.''
      else let rooted = (hd p = CHR ''/'');
               out = rev (foldl (clean_elem rooted) [] (split_sep p))
           in if rooted then CHR ''/'' # join_sep out
              else if out = [] then ''.'' else join_sep out)"

text \<open>\<open>filepath.Join\<close>: the elements from the first non-empty one on, joined by the
  separator and cleaned; the empty string when every element is empty.\<close>

fun Join :: "string list \<Rightarrow> string" where
  "Join [] = []"
| "Join (e # es) = (if e = [] then Join es else Clean (join_sep (e # es)))"

section \<open>RootFS resolver (resolveFilesystemPath)\<close>

text \<open>The three copies of \<open>resolveFilesystemPath\<close> (the gNOI file server's method, the
  internal file package's function, the gNMI server's method) have the same body; the
  receiver's \<open>rootFS\<close> field is the second argument here.\<close>

definition resolveFilesystemPath :: "string \<Rightarrow> string \<Rightarrow> string" where
  "resolveFilesystemPath fsPath rootFS =
     (if rootFS = [] \<or> rootFS = ''/'' then fsPath
      else if HasPrefix fsPath rootFS then fsPath
      else if HasPrefix fsPath ''/'' then Join [rootFS, fsPath]
      else fsPath)"


text \<open>\<open>filepath.Base\<close>: the last element of the path, after the trailing separators
  are removed; \<open>.\<close> for the empty path, \<open>/\<close> for a path of separators only.\<close>

definition Base :: "string \<Rightarrow> string" where
  "Base p =
     (if p = [] then ''.''
      else let q = rev (dropWhile (\<lambda>c. c = CHR ''/'') (rev p))
           in if q = [] then ''/'' else last (split_sep q))"

text \<open>
  \<open>filepath.Rel(basepath, targpath)\<close>. Both paths are cleaned; equal paths give \<open>.\<close>;
  a base or a target of \<open>.\<close> counts as empty; a rooted and an unrooted path cannot
  be related. The library then moves over both paths element by element while they
  agree, which \<open>drop_common\<close> does on the lists of elements. \<open>rel_elems\<close> gives the
  elements the library's loop sees in a cleaned path: none in the empty path, and the
  single empty element before the separator in \<open>/\<close>. The result is an error when
  the base that is left begins with \<open>..\<close>, whatever is left of the target; otherwise
  each base element left becomes a \<open>..\<close>, followed by the target's remaining
  elements.
\<close>

datatype rel_error = CantMakeRelative

fun drop_common :: "string list \<Rightarrow> string list \<Rightarrow> string list \<times> string list" where
  "drop_common (b # bs) (t # ts) = (if b = t then drop_common bs ts else (b # bs, t # ts))"
| "drop_common bs ts = (bs, ts)"

definition rel_elems :: "string \<Rightarrow> string list" where
  "rel_elems p = (if p = [] then [] else if p = ''/'' then [[]] else split_sep p)"

definition Rel :: "string \<Rightarrow> string \<Rightarrow> rel_error + string" where
  "Rel basepath targpath =
     (let base = Clean basepath; targ = Clean targpath
      in if targ = base then Inr ''.''
         else let base = (if base = ''.'' then [] else base);
                  targ = (if targ = ''.'' then [] else targ)
              in if (base \<noteq> [] \<and> hd base = CHR ''/'') \<noteq> (targ \<noteq> [] \<and> hd targ = CHR ''/'')
                 then Inl CantMakeRelative
                 else (case drop_common (rel_elems base) (rel_elems targ) of
                         (bs, ts) \<Rightarrow>
                           if bs \<noteq> [] \<and> hd bs = ''..'' then Inl CantMakeRelative
                           else if bs \<noteq> [] then
                             Inr (join_sep (replicate (length bs) ''..'' @ ts))
                           else Inr (join_sep ts)))"

section \<open>The filesystem as the file package sees it\<close>

text \<open>
  An \<open>fs.FileInfo\<close> holds what the code reads from it: \<open>Size()\<close>, \<open>ModTime()\<close>,
  \<open>IsDir()\<close> and \<open>Mode().String()\<close>.
\<close>

record FileInfo =
  info_Size :: int
  info_ModTime :: int
  info_IsDir :: bool
  info_Mode :: string

datatype os_error = ErrNotExist | ErrOther string

text \<open>
  An \<open>fs.DirEntry\<close> as \<open>filepath.WalkDir\<close> meets it: its \<open>Name()\<close>, its \<open>IsDir()\<close>,
  the result of its \<open>Info()\<close> (which can fail), and, for a directory, what
  \<open>os.ReadDir\<close> gives at its path: an error or none, and the entries read (all of
  them, or those read before the error).
\<close>

datatype DirEntry =
  DirEntry (entry_Name: string) (entry_IsDir: bool) (entry_Info: "os_error + FileInfo")
    (entry_ReadDirErr: "os_error option") (entry_ReadDir: "DirEntry list")

text \<open>
  The filesystem and the storage-capacity provider, fixed for the time of one request:
  \<open>os.Stat\<close> (only its error is read), the \<open>os.Lstat\<close> with which \<open>WalkDir\<close> starts
  (it gives the root's entry, with the tree below it), and \<open>diskspace.GetDiskSpace\<close>
  (an external collaborator: total and available megabytes, or an error).
\<close>

record DiskSpaceInfo =
  TotalMB :: int
  AvailableMB :: int

record FS =
  os_Stat :: "string \<Rightarrow> os_error option"
  os_Lstat :: "string \<Rightarrow> os_error + DirEntry"
  GetDiskSpace :: "string \<Rightarrow> string + DiskSpaceInfo"

text \<open>The calls into the filesystem that a request makes, in their order.\<close>

datatype fs_call = CallStat string | CallWalkDir string | CallGetDiskSpace string

subsection \<open>filepath.WalkDir\<close>

text \<open>
  \<open>WalkDir\<close> calls the function \<open>fn(path, d, err)\<close> in three ways: \<open>fn(path, d, nil)\<close>
  on each entry it visits, \<open>fn(root, nil, err)\<close> when the first \<open>Lstat\<close> of the root
  fails, and \<open>fn(path, d, err)\<close> when reading the directory \<open>d\<close> fails. The function
  threads a state (the variables its closure captures) and returns an error or none,
  \<open>SkipDir\<close> and \<open>SkipAll\<close> being the library's two special errors.
\<close>

datatype walk_arg = Visit DirEntry | LstatFailed os_error | ReadDirFailed DirEntry os_error

datatype walk_error = SkipDir | SkipAll | WalkErr string

type_synonym 'st WalkDirFunc = "string \<Rightarrow> walk_arg \<Rightarrow> 'st \<Rightarrow> walk_error option \<times> 'st"

fun walkDir :: "'st WalkDirFunc \<Rightarrow> string \<Rightarrow> DirEntry \<Rightarrow> 'st \<Rightarrow> walk_error option \<times> 'st"
  and walkEntries ::
    "'st WalkDirFunc \<Rightarrow> string \<Rightarrow> DirEntry list \<Rightarrow> 'st \<Rightarrow> walk_error option \<times> 'st"
where
  "walkDir fn path (DirEntry n isdir info rerr dirs) st =
     (case fn path (Visit (DirEntry n isdir info rerr dirs)) st of
        (Some err, st1) \<Rightarrow> (if err = SkipDir \<and> isdir then (None, st1) else (Some err, st1))
      | (None, st1) \<Rightarrow>
          if \<not> isdir then (None, st1)
          else (case rerr of
                  None \<Rightarrow> walkEntries fn path dirs st1
                | Some e \<Rightarrow>
                    (case fn path (ReadDirFailed (DirEntry n isdir info rerr dirs) e) st1 of
                       (Some err, st2) \<Rightarrow>
                         (if err = SkipDir \<and> isdir then (None, st2) else (Some err, st2))
                     | (None, st2) \<Rightarrow> walkEntries fn path dirs st2)))"
| "walkEntries fn path [] st = (None, st)"
| "walkEntries fn path (d1 # ds) st =
     (case walkDir fn (Join [path, entry_Name d1]) d1 st of
        (Some err, st1) \<Rightarrow> (if err = SkipDir then (None, st1) else (Some err, st1))
      | (None, st1) \<Rightarrow> walkEntries fn path ds st1)"

definition WalkDir :: "FS \<Rightarrow> string \<Rightarrow> 'st WalkDirFunc \<Rightarrow> 'st \<Rightarrow> walk_error option \<times> 'st" where
  "WalkDir fs root fn st =
     (case (case os_Lstat fs root of
              Inl e \<Rightarrow> fn root (LstatFailed e) st
            | Inr d \<Rightarrow> walkDir fn root d st) of
        (Some err, st1) \<Rightarrow> (if err = SkipDir \<or> err = SkipAll then (None, st1) else (Some err, st1))
      | (None, st1) \<Rightarrow> (None, st1))"

section \<open>Directory inspector (gnoi/file/file.go and the internal file package)\<close>

text \<open>\<open>FirmwareFileInfo\<close> and \<open>SonicImageFileInfo\<close> have the same five fields; the field
  \<open>Name\<close> is \<open>FileName\<close> here, the path element's field having the name \<open>Name\<close>.\<close>

record FirmwareFileInfo =
  FileName :: string
  Size :: int
  ModTime :: int
  IsDirectory :: bool
  Permissions :: string

type_synonym SonicImageFileInfo = FirmwareFileInfo

datatype file_error =
    DirectoryDoesNotExist string
  | FailedToAccessDirectory string os_error
  | FailedToWalkDirectory string walk_error
  | FileNotFound string

text \<open>The function \<open>ListFirmwareFiles\<close> passes to \<open>WalkDir\<close>; its state is the slice
  \<open>files\<close>. Every return of it is \<open>nil\<close>. When \<open>filepath.Rel\<close> fails the name is the
  base name of the path.\<close>

definition firmwareWalkFn :: "string \<Rightarrow> FirmwareFileInfo list WalkDirFunc" where
  "firmwareWalkFn resolvedPath path a files =
     (case a of
        LstatFailed err \<Rightarrow> (None, files)
      | ReadDirFailed d err \<Rightarrow> (None, files)
      | Visit d \<Rightarrow>
          if path = resolvedPath then (None, files)
          else (case entry_Info d of
                  Inl err \<Rightarrow> (None, files)
                | Inr info \<Rightarrow>
                    let relPath = (case Rel resolvedPath path of
                                     Inl err \<Rightarrow> Base path
                                   | Inr r \<Rightarrow> r)
                    in (None, files @
                          [\<lparr>FileName = relPath, Size = info_Size info,
                            ModTime = info_ModTime info, IsDirectory = info_IsDir info,
                            Permissions = info_Mode info\<rparr>])))"

definition ListFirmwareFiles ::
  "string \<Rightarrow> FS \<Rightarrow> string \<Rightarrow> fs_call list \<times> (file_error + FirmwareFileInfo list)" where
  "ListFirmwareFiles rootFS fs directory =
     (let resolvedPath = resolveFilesystemPath directory rootFS
      in case os_Stat fs resolvedPath of
           Some ErrNotExist \<Rightarrow> ([CallStat resolvedPath], Inl (DirectoryDoesNotExist directory))
         | Some (ErrOther m) \<Rightarrow>
             ([CallStat resolvedPath], Inl (FailedToAccessDirectory directory (ErrOther m)))
         | None \<Rightarrow>
             (case WalkDir fs resolvedPath (firmwareWalkFn resolvedPath) [] of
                (Some err, files) \<Rightarrow>
                  ([CallStat resolvedPath, CallWalkDir resolvedPath],
                   Inl (FailedToWalkDirectory directory err))
              | (None, files) \<Rightarrow>
                  ([CallStat resolvedPath, CallWalkDir resolvedPath], Inr files)))"

definition GetFirmwareFileCount ::
  "string \<Rightarrow> FS \<Rightarrow> string \<Rightarrow> fs_call list \<times> (file_error + int)" where
  "GetFirmwareFileCount rootFS fs directory =
     (case ListFirmwareFiles rootFS fs directory of
        (calls, Inl err) \<Rightarrow> (calls, Inl err)
      | (calls, Inr files) \<Rightarrow> (calls, Inr (int (length files))))"

text \<open>The loop \<open>for _, file := range files\<close> that returns at the first match.\<close>

fun lookForFile :: "FirmwareFileInfo list \<Rightarrow> string \<Rightarrow> FirmwareFileInfo option" where
  "lookForFile [] filename = None"
| "lookForFile (file # files) filename =
     (if FileName file = filename then Some file else lookForFile files filename)"

definition GetFirmwareFileInfo ::
  "string \<Rightarrow> FS \<Rightarrow> string \<Rightarrow> string \<Rightarrow> fs_call list \<times> (file_error + FirmwareFileInfo)" where
  "GetFirmwareFileInfo rootFS fs directory filename =
     (case ListFirmwareFiles rootFS fs directory of
        (calls, Inl err) \<Rightarrow> (calls, Inl err)
      | (calls, Inr files) \<Rightarrow>
          (case lookForFile files filename of
             Some file \<Rightarrow> (calls, Inr file)
           | None \<Rightarrow> (calls, Inl (FileNotFound filename))))"

text \<open>The internal file package: the same walk, but an entry whose relative path
  cannot be computed is skipped.\<close>

definition sonicImageWalkFn :: "string \<Rightarrow> SonicImageFileInfo list WalkDirFunc" where
  "sonicImageWalkFn resolvedPath path a files =
     (case a of
        LstatFailed err \<Rightarrow> (None, files)
      | ReadDirFailed d err \<Rightarrow> (None, files)
      | Visit d \<Rightarrow>
          if path = resolvedPath then (None, files)
          else (case entry_Info d of
                  Inl err \<Rightarrow> (None, files)
                | Inr info \<Rightarrow>
                    (case Rel resolvedPath path of
                       Inl err \<Rightarrow> (None, files)
                     | Inr relPath \<Rightarrow>
                         (None, files @
                            [\<lparr>FileName = relPath, Size = info_Size info,
                              ModTime = info_ModTime info, IsDirectory = info_IsDir info,
                              Permissions = info_Mode info\<rparr>]))))"

definition ListSonicImageFiles ::
  "string \<Rightarrow> string \<Rightarrow> FS \<Rightarrow> fs_call list \<times> (file_error + SonicImageFileInfo list)" where
  "ListSonicImageFiles directory rootFS fs =
     (let resolvedPath = resolveFilesystemPath directory rootFS
      in case os_Stat fs resolvedPath of
           Some ErrNotExist \<Rightarrow> ([CallStat resolvedPath], Inl (DirectoryDoesNotExist directory))
         | Some (ErrOther m) \<Rightarrow>
             ([CallStat resolvedPath], Inl (FailedToAccessDirectory directory (ErrOther m)))
         | None \<Rightarrow>
             (case WalkDir fs resolvedPath (sonicImageWalkFn resolvedPath) [] of
                (Some err, files) \<Rightarrow>
                  ([CallStat resolvedPath, CallWalkDir resolvedPath],
                   Inl (FailedToWalkDirectory directory err))
              | (None, files) \<Rightarrow>
                  ([CallStat resolvedPath, CallWalkDir resolvedPath], Inr files)))"

definition GetSonicImageFileCount ::
  "string \<Rightarrow> string \<Rightarrow> FS \<Rightarrow> fs_call list \<times> (file_error + int)" where
  "GetSonicImageFileCount directory rootFS fs =
     (case ListSonicImageFiles directory rootFS fs of
        (calls, Inl err) \<Rightarrow> (calls, Inl err)
      | (calls, Inr files) \<Rightarrow> (calls, Inr (int (length files))))"

definition GetSonicImageFileInfo ::
  "string \<Rightarrow> string \<Rightarrow> string \<Rightarrow> FS \<Rightarrow> fs_call list \<times> (file_error + SonicImageFileInfo)" where
  "GetSonicImageFileInfo directory filename rootFS fs =
     (case ListSonicImageFiles directory rootFS fs of
        (calls, Inl err) \<Rightarrow> (calls, Inl err)
      | (calls, Inr files) \<Rightarrow>
          (case lookForFile files filename of
             Some file \<Rightarrow> (calls, Inr file)
           | None \<Rightarrow> (calls, Inl (FileNotFound filename))))"

section \<open>What a walk visits\<close>

text \<open>
  The entries \<open>walkDir\<close> visits below (and with) an entry, in the order of the walk,
  each with the names that lead to it from the entry the walk started at; the
  children of an entry that is not a directory are not visited.
\<close>

fun visited :: "string list \<Rightarrow> DirEntry \<Rightarrow> (string list \<times> DirEntry) list"
  and visited_entries :: "string list \<Rightarrow> DirEntry list \<Rightarrow> (string list \<times> DirEntry) list"
where
  "visited names (DirEntry n isdir info rerr dirs) =
     (names, DirEntry n isdir info rerr dirs) #
       (if isdir then visited_entries names dirs else [])"
| "visited_entries names [] = []"
| "visited_entries names (d1 # ds) =
     visited (names @ [entry_Name d1]) d1 @ visited_entries names ds"

text \<open>The descendants of a directory: what a walk from it visits, but the directory
  itself.\<close>

definition descendants :: "DirEntry \<Rightarrow> (string list \<times> DirEntry) list" where
  "descendants d = tl (visited [] d)"

text \<open>The path \<open>WalkDir\<close> gives to an entry: each name is joined to the path of the
  directory that holds it.\<close>

definition walk_path :: "string \<Rightarrow> string list \<Rightarrow> string" where
  "walk_path root names = foldl (\<lambda>p n. Join [p, n]) root names"

text \<open>A name a directory entry can have: not empty, without a separator, and neither
  \<open>.\<close> nor \<open>..\<close>.\<close>

definition valid_name :: "string \<Rightarrow> bool" where
  "valid_name n \<longleftrightarrow> n \<noteq> [] \<and> CHR ''/'' \<notin> set n \<and> n \<noteq> ''.'' \<and> n \<noteq> ''..''"

definition valid_names :: "DirEntry \<Rightarrow> bool" where
  "valid_names d \<longleftrightarrow> (\<forall>(names, e) \<in> set (descendants d). \<forall>n \<in> set names. valid_name n)"

text \<open>No error below a directory: the directory and each directory below it is read
  without an error, and the \<open>Info()\<close> of each descendant succeeds.\<close>

definition readable :: "DirEntry \<Rightarrow> bool" where
  "readable e \<longleftrightarrow> (entry_IsDir e \<longrightarrow> entry_ReadDirErr e = None)"

definition no_entry_errors :: "DirEntry \<Rightarrow> bool" where
  "no_entry_errors d \<longleftrightarrow>
     readable d \<and>
     (\<forall>(names, e) \<in> set (descendants d). readable e \<and> (\<exists>info. entry_Info e = Inr info))"

text \<open>No directory that a walk reads holds two entries of the same name.\<close>

fun distinct_names :: "DirEntry \<Rightarrow> bool" where
  "distinct_names (DirEntry n isdir info rerr dirs) =
     (isdir \<longrightarrow> distinct (map entry_Name dirs) \<and> (\<forall>k \<in> set dirs. distinct_names k))"

text \<open>The record the listing makes of an entry with a readable \<open>Info()\<close>, under a given
  name.\<close>

definition file_record :: "string \<Rightarrow> FileInfo \<Rightarrow> FirmwareFileInfo" where
  "file_record name info =
     \<lparr>FileName = name, Size = info_Size info, ModTime = info_ModTime info,
      IsDirectory = info_IsDir info, Permissions = info_Mode info\<rparr>"

text \<open>One record for each of the given entries whose \<open>Info()\<close> succeeds, named by its
  names joined with the separator.\<close>

fun records_of :: "(string list \<times> DirEntry) list \<Rightarrow> FirmwareFileInfo list" where
  "records_of [] = []"
| "records_of ((names, e) # rest) =
     (case entry_Info e of
        Inl err \<Rightarrow> records_of rest
      | Inr info \<Rightarrow> file_record (join_sep names) info # records_of rest)"

text \<open>The records of the entries a walk visits, the entry it started at left out.\<close>

definition recs :: "(string list \<times> DirEntry) list \<Rightarrow> FirmwareFileInfo list" where
  "recs xs = records_of (filter (\<lambda>(names, e). names \<noteq> []) xs)"

text \<open>For the proofs about \<open>Clean\<close>: whether a path is rooted, the output of the
  cleaning loop as a list of elements (the last one first), the string it stands
  for, and the shape such an output has: no element is empty, is \<open>.\<close> or has a
  separator, and a \<open>..\<close> has only \<open>..\<close> before it and stands in no rooted path.\<close>

definition is_rooted :: "string \<Rightarrow> bool" where
  "is_rooted p \<longleftrightarrow> p \<noteq> [] \<and> hd p = CHR ''/''"

definition clean_out :: "string \<Rightarrow> string list" where
  "clean_out p = foldl (clean_elem (is_rooted p)) [] (split_sep p)"

definition render :: "bool \<Rightarrow> string list \<Rightarrow> string" where
  "render rooted out =
     (if rooted then CHR ''/'' # join_sep out
      else if out = [] then ''.'' else join_sep out)"

fun cleaned :: "bool \<Rightarrow> string list \<Rightarrow> bool" where
  "cleaned rooted [] = True"
| "cleaned rooted (t # ts) =
     (t \<noteq> [] \<and> CHR ''/'' \<notin> set t \<and> t \<noteq> ''.'' \<and>
      (t = ''..'' \<longrightarrow> \<not> rooted \<and> (\<forall>e \<in> set ts. e = ''..'')) \<and> cleaned rooted ts)"

text \<open>
  The elements of a path never climb above the point where the path starts: each
  \<open>..\<close> has an element of the path before it that it removes. The number is the count
  of elements that can still be removed.
\<close>

fun stays_below :: "nat \<Rightarrow> string list \<Rightarrow> bool" where
  "stays_below k [] = True"
| "stays_below k (e # es) =
     (if e = [] \<or> e = ''.'' then stays_below k es
      else if e = ''..'' then 0 < k \<and> stays_below (k - 1) es
      else stays_below (Suc k) es)"


section \<open>Dispatch of the gNMI server (the handlers)\<close>

text \<open>
  The server's state read by the handlers is its \<open>rootFS\<close>; the process-wide
  configuration \<open>config.Global\<close> is passed to the handlers as a value. A handler
  returns a gRPC status error (a code and its cause) or a \<open>gnmi.Update\<close>, and with it
  the calls into the filesystem it made.
\<close>

record Server =
  rootFS :: string

record Config =
  EnableGNOIFile :: bool

datatype Code = InvalidArgument | NotFound | Internal | FailedPrecondition

datatype cause =
    BadPath path_error
  | UnsupportedMetric
  | RequiresGNOIFile
  | DiskSpaceFailed string
  | FileFailed file_error

datatype status = Status Code cause

text \<open>
  The response value before \<open>json.Marshal\<close>: the bare count, or a Go map from field
  names to values. \<open>json.Marshal\<close> itself is not modelled: the \<open>JsonVal\<close> of an
  update is the value it encodes.
\<close>

datatype field =
    FString string
  | FNumber int
  | FFile FirmwareFileInfo
  | FFiles "FirmwareFileInfo list"

datatype "value" = VCount int | VObject "string \<rightharpoonup> field"

record Update =
  Path :: Path
  Val :: "value"

type_synonym response = "fs_call list \<times> (status + Update)"

definition handleDiskSpaceRequest :: "Server \<Rightarrow> FS \<Rightarrow> Path \<Rightarrow> string \<Rightarrow> response" where
  "handleDiskSpaceRequest s fs path fsPath =
     (case validateDiskSpacePath path of
        Some err \<Rightarrow> ([], Inl (Status InvalidArgument (BadPath err)))
      | None \<Rightarrow>
          let resolvedPath = resolveFilesystemPath fsPath (rootFS s)
          in (case GetDiskSpace fs resolvedPath of
                Inl err \<Rightarrow>
                  ([CallGetDiskSpace resolvedPath], Inl (Status Internal (DiskSpaceFailed err)))
              | Inr info \<Rightarrow>
                  ([CallGetDiskSpace resolvedPath],
                   Inr \<lparr>Path = path,
                        Val = VObject [''path'' \<mapsto> FString fsPath,
                                       ''total-mb'' \<mapsto> FNumber (TotalMB info),
                                       ''available-mb'' \<mapsto> FNumber (AvailableMB info)]\<rparr>)))"

definition handleFilesystemPath :: "Server \<Rightarrow> FS \<Rightarrow> Path \<Rightarrow> response" where
  "handleFilesystemPath s fs path =
     (case extractFilesystemPath path of
        Inl err \<Rightarrow> ([], Inl (Status InvalidArgument (BadPath err)))
      | Inr fsPath \<Rightarrow>
          if isDiskSpacePath path then handleDiskSpaceRequest s fs path fsPath
          else ([], Inl (Status NotFound UnsupportedMetric)))"

text \<open>The firmware handlers: \<open>fileService := gnoiFile.NewServer(s.rootFS)\<close> is the
  file server with the same root.\<close>

definition handleFirmwareFilesRequest :: "Server \<Rightarrow> FS \<Rightarrow> Path \<Rightarrow> string \<Rightarrow> response" where
  "handleFirmwareFilesRequest s fs path firmwareDir =
     (case getFirmwareFileField path of
        Inl err \<Rightarrow> ([], Inl (Status InvalidArgument (BadPath err)))
      | Inr fld \<Rightarrow>
          if fld = ''count'' then
            (case GetFirmwareFileCount (rootFS s) fs firmwareDir of
               (calls, Inl err) \<Rightarrow> (calls, Inl (Status Internal (FileFailed err)))
             | (calls, Inr count) \<Rightarrow> (calls, Inr \<lparr>Path = path, Val = VCount count\<rparr>))
          else if fld = ''list'' then
            (case ListFirmwareFiles (rootFS s) fs firmwareDir of
               (calls, Inl err) \<Rightarrow> (calls, Inl (Status Internal (FileFailed err)))
             | (calls, Inr files) \<Rightarrow>
                 (calls,
                  Inr \<lparr>Path = path,
                       Val = VObject [''directory'' \<mapsto> FString firmwareDir,
                                      ''file_count'' \<mapsto> FNumber (int (length files)),
                                      ''files'' \<mapsto> FFiles files]\<rparr>))
          else
            (case GetFirmwareFileInfo (rootFS s) fs firmwareDir fld of
               (calls, Inl err) \<Rightarrow> (calls, Inl (Status Internal (FileFailed err)))
             | (calls, Inr fileInfo) \<Rightarrow>
                 (calls,
                  Inr \<lparr>Path = path,
                       Val = VObject [''directory'' \<mapsto> FString firmwareDir,
                                      ''file'' \<mapsto> FFile fileInfo]\<rparr>)))"

definition handleFirmwarePath :: "Config \<Rightarrow> Server \<Rightarrow> FS \<Rightarrow> Path \<Rightarrow> response" where
  "handleFirmwarePath global s fs path =
     (if \<not> EnableGNOIFile global then ([], Inl (Status FailedPrecondition RequiresGNOIFile))
      else (case extractFirmwareDirectory path of
              Inl err \<Rightarrow> ([], Inl (Status InvalidArgument (BadPath err)))
            | Inr firmwareDir \<Rightarrow>
                if isFirmwareFilesPath path then handleFirmwareFilesRequest s fs path firmwareDir
                else ([], Inl (Status NotFound UnsupportedMetric))))"

text \<open>The sonic-image handlers. \<open>handleSonicImagePath\<close> does not read
  \<open>config.Global\<close>; the configuration is an argument here only because it is there
  for every handler of the process.\<close>

definition handleSonicImageFilesRequest :: "Server \<Rightarrow> FS \<Rightarrow> Path \<Rightarrow> string \<Rightarrow> response" where
  "handleSonicImageFilesRequest s fs path sonicImageDir =
     (case getSonicImageFileField path of
        Inl err \<Rightarrow> ([], Inl (Status InvalidArgument (BadPath err)))
      | Inr fld \<Rightarrow>
          if fld = ''count'' then
            (case GetSonicImageFileCount sonicImageDir (rootFS s) fs of
               (calls, Inl err) \<Rightarrow> (calls, Inl (Status Internal (FileFailed err)))
             | (calls, Inr count) \<Rightarrow> (calls, Inr \<lparr>Path = path, Val = VCount count\<rparr>))
          else if fld = ''list'' then
            (case ListSonicImageFiles sonicImageDir (rootFS s) fs of
               (calls, Inl err) \<Rightarrow> (calls, Inl (Status Internal (FileFailed err)))
             | (calls, Inr files) \<Rightarrow>
                 (calls,
                  Inr \<lparr>Path = path,
                       Val = VObject [''directory'' \<mapsto> FString sonicImageDir,
                                      ''file_count'' \<mapsto> FNumber (int (length files)),
                                      ''files'' \<mapsto> FFiles files]\<rparr>))
          else
            (case GetSonicImageFileInfo sonicImageDir fld (rootFS s) fs of
               (calls, Inl err) \<Rightarrow> (calls, Inl (Status Internal (FileFailed err)))
             | (calls, Inr fileInfo) \<Rightarrow>
                 (calls,
                  Inr \<lparr>Path = path,
                       Val = VObject [''directory'' \<mapsto> FString sonicImageDir,
                                      ''file'' \<mapsto> FFile fileInfo]\<rparr>)))"

definition handleSonicImagePath :: "Config \<Rightarrow> Server \<Rightarrow> FS \<Rightarrow> Path \<Rightarrow> response" where
  "handleSonicImagePath global s fs path =
     (case extractSonicImageDirectory path of
        Inl err \<Rightarrow> ([], Inl (Status InvalidArgument (BadPath err)))
      | Inr sonicImageDir \<Rightarrow>
          if isSonicImageFilesPath path then handleSonicImageFilesRequest s fs path sonicImageDir
          else ([], Inl (Status NotFound UnsupportedMetric)))"

section \<open>The gNMI client's helpers (pkg/client/gnmi)\<close>

text \<open>
  A client helper checks its arguments, builds the path, sends one Get request and
  decodes the first update of the first notification. The transport \<open>c.Get\<close> and
  \<open>json.Unmarshal\<close> are the client's collaborators: a response is the list of its
  notifications, each the list of its updates, each the \<open>JsonVal\<close> it carries or none.
\<close>

record FirmwareFilesResponse =
  Directory :: string
  FileCount :: int
  Files :: "FirmwareFileInfo list"

record FirmwareFileResponse =
  FileDirectory :: string
  File :: FirmwareFileInfo

type_synonym GetResponse = "string option list list"

record Client =
  client_Get :: "Path list \<Rightarrow> string + GetResponse"
  unmarshal_files :: "string \<Rightarrow> string + FirmwareFilesResponse"
  unmarshal_count :: "string \<Rightarrow> string + int"
  unmarshal_file :: "string \<Rightarrow> string + FirmwareFileResponse"

datatype client_error =
    DirectoryRequired
  | FilenameRequired
  | GetFailed string
  | NoDataReceived
  | ExpectedJSON
  | ParseFailed string

text \<open>The part the six helpers share after the path is built: the request, the checks
  on the response and the decoding.\<close>

definition get_and_decode ::
  "Client \<Rightarrow> Path \<Rightarrow> (string \<Rightarrow> string + 'a) \<Rightarrow> client_error + 'a" where
  "get_and_decode c path unmarshal =
     (case client_Get c [path] of
        Inl err \<Rightarrow> Inl (GetFailed err)
      | Inr resp \<Rightarrow>
          (case resp of
             [] \<Rightarrow> Inl NoDataReceived
           | notification # _ \<Rightarrow>
               (case notification of
                  [] \<Rightarrow> Inl NoDataReceived
                | update # _ \<Rightarrow>
                    (case update of
                       None \<Rightarrow> Inl ExpectedJSON
                     | Some jsonVal \<Rightarrow>
                         (case unmarshal jsonVal of
                            Inl err \<Rightarrow> Inl (ParseFailed err)
                          | Inr v \<Rightarrow> Inr v)))))"

definition files_path :: "string \<Rightarrow> string \<Rightarrow> string list \<Rightarrow> Path" where
  "files_path resource directory rest =
     [\<lparr>Name = ''sonic'', Key = Map.empty\<rparr>, \<lparr>Name = ''system'', Key = Map.empty\<rparr>,
      \<lparr>Name = resource, Key = [''directory'' \<mapsto> directory]\<rparr>,
      \<lparr>Name = ''files'', Key = Map.empty\<rparr>]
     @ map (\<lambda>n. \<lparr>Name = n, Key = Map.empty\<rparr>) rest"

definition client_GetFirmwareFiles ::
  "Client \<Rightarrow> string \<Rightarrow> client_error + FirmwareFilesResponse" where
  "client_GetFirmwareFiles c directory =
     (if directory = [] then Inl DirectoryRequired
      else get_and_decode c (files_path ''firmware'' directory []) (unmarshal_files c))"

definition client_GetFirmwareFileCount :: "Client \<Rightarrow> string \<Rightarrow> client_error + int" where
  "client_GetFirmwareFileCount c directory =
     (if directory = [] then Inl DirectoryRequired
      else get_and_decode c (files_path ''firmware'' directory [''count'']) (unmarshal_count c))"

definition client_GetFirmwareFileInfo ::
  "Client \<Rightarrow> string \<Rightarrow> string \<Rightarrow> client_error + FirmwareFileResponse" where
  "client_GetFirmwareFileInfo c directory filename =
     (if directory = [] then Inl DirectoryRequired
      else if filename = [] then Inl FilenameRequired
      else get_and_decode c (files_path ''firmware'' directory [filename]) (unmarshal_file c))"

definition client_GetSonicImageFiles ::
  "Client \<Rightarrow> string \<Rightarrow> client_error + FirmwareFilesResponse" where
  "client_GetSonicImageFiles c directory =
     (if directory = [] then Inl DirectoryRequired
      else get_and_decode c (files_path ''sonic-image'' directory []) (unmarshal_files c))"

definition client_GetSonicImageFileCount :: "Client \<Rightarrow> string \<Rightarrow> client_error + int" where
  "client_GetSonicImageFileCount c directory =
     (if directory = [] then Inl DirectoryRequired
      else get_and_decode c (files_path ''sonic-image'' directory [''count''])
             (unmarshal_count c))"

definition client_GetSonicImageFileInfo ::
  "Client \<Rightarrow> string \<Rightarrow> string \<Rightarrow> client_error + FirmwareFileResponse" where
  "client_GetSonicImageFileInfo c directory filename =
     (if directory = [] then Inl DirectoryRequired
      else if filename = [] then Inl FilenameRequired
      else get_and_decode c (files_path ''sonic-image'' directory [filename])
             (unmarshal_file c))"


section \<open>Example inputs\<close>

text \<open>A disk-space query path \<open>/sonic/system/filesystem[path=fsPath]/disk-space/...\<close>.\<close>

definition disk_space_path :: "string \<Rightarrow> string list \<Rightarrow> Path" where
  "disk_space_path fsPath rest =
     [\<lparr>Name = ''sonic'', Key = Map.empty\<rparr>, \<lparr>Name = ''system'', Key = Map.empty\<rparr>,
      \<lparr>Name = ''filesystem'', Key = [''path'' \<mapsto> fsPath]\<rparr>,
      \<lparr>Name = ''disk-space'', Key = Map.empty\<rparr>]
     @ map (\<lambda>n. \<lparr>Name = n, Key = Map.empty\<rparr>) rest"

text \<open>A filesystem with the single directory \<open>/images\<close>, which holds one file.\<close>

definition images_dir :: DirEntry where
  "images_dir =
     DirEntry ''images'' True
       (Inr \<lparr>info_Size = 4096, info_ModTime = 0, info_IsDir = True,
             info_Mode = ''drwxr-xr-x''\<rparr>)
       None
       [DirEntry ''sonic.bin'' False
          (Inr \<lparr>info_Size = 10, info_ModTime = 0, info_IsDir = False,
                info_Mode = ''-rw-r--r--''\<rparr>)
          None []]"

definition images_fs :: FS where
  "images_fs =
     \<lparr>os_Stat = (\<lambda>p. if p = ''/images'' then None else Some ErrNotExist),
      os_Lstat = (\<lambda>p. if p = ''/images'' then Inr images_dir else Inl ErrNotExist),
      GetDiskSpace = (\<lambda>p. Inr \<lparr>TotalMB = 100, AvailableMB = 40\<rparr>)\<rparr>"

text \<open>A client whose transport reaches no server.\<close>

definition offline_client :: Client where
  "offline_client =
     \<lparr>client_Get = (\<lambda>paths. Inl ''connection refused''),
      unmarshal_files = (\<lambda>b. Inl ''unexpected end of JSON input''),
      unmarshal_count = (\<lambda>b. Inl ''unexpected end of JSON input''),
      unmarshal_file = (\<lambda>b. Inl ''unexpected end of JSON input'')\<rparr>"

text \<open>A firmware directory \<open>/fw\<close> with a readable file, an entry whose \<open>Info()\<close>
  fails, and a subdirectory whose reading fails after one entry.\<close>

definition faulty_dir :: DirEntry where
  "faulty_dir =
     DirEntry ''fw'' True
       (Inr \<lparr>info_Size = 4096, info_ModTime = 0, info_IsDir = True,
             info_Mode = ''drwxr-xr-x''\<rparr>)
       None
       [DirEntry ''a.bin'' False
          (Inr \<lparr>info_Size = 10, info_ModTime = 0, info_IsDir = False,
                info_Mode = ''-rw-r--r--''\<rparr>)
          None [],
        DirEntry ''broken'' False (Inl ErrNotExist) None [],
        DirEntry ''sub'' True
          (Inr \<lparr>info_Size = 4096, info_ModTime = 0, info_IsDir = True,
                info_Mode = ''drwxr-xr-x''\<rparr>)
          (Some (ErrOther ''input/output error''))
          [DirEntry ''c.bin'' False
             (Inr \<lparr>info_Size = 5, info_ModTime = 0, info_IsDir = False,
                   info_Mode = ''-rw-r--r--''\<rparr>)
             None []]]"

definition faulty_fs :: FS where
  "faulty_fs =
     \<lparr>os_Stat = (\<lambda>p. if p = ''/fw'' then None else Some ErrNotExist),
      os_Lstat = (\<lambda>p. if p = ''/fw'' then Inr faulty_dir else Inl ErrNotExist),
      GetDiskSpace = (\<lambda>p. Inl ''no such file or directory'')\<rparr>"

text \<open>The directory of the specification's scenario: \<open>a.bin\<close> (10 bytes), \<open>b.fw\<close>
  (20 bytes) and the subdirectory \<open>sub\<close> with \<open>c.bin\<close> (5 bytes), under the root
  \<open>/mnt\<close> at \<open>/mnt/lib/firmware\<close>.\<close>

definition scenario_dir :: DirEntry where
  "scenario_dir =
     DirEntry ''firmware'' True
       (Inr \<lparr>info_Size = 4096, info_ModTime = 0, info_IsDir = True,
             info_Mode = ''drwxr-xr-x''\<rparr>)
       None
       [DirEntry ''a.bin'' False
          (Inr \<lparr>info_Size = 10, info_ModTime = 0, info_IsDir = False,
                info_Mode = ''-rw-r--r--''\<rparr>)
          None [],
        DirEntry ''b.fw'' False
          (Inr \<lparr>info_Size = 20, info_ModTime = 0, info_IsDir = False,
                info_Mode = ''-rw-r--r--''\<rparr>)
          None [],
        DirEntry ''sub'' True
          (Inr \<lparr>info_Size = 4096, info_ModTime = 0, info_IsDir = True,
                info_Mode = ''drwxr-xr-x''\<rparr>)
          None
          [DirEntry ''c.bin'' False
             (Inr \<lparr>info_Size = 5, info_ModTime = 0, info_IsDir = False,
                   info_Mode = ''-rw-r--r--''\<rparr>)
             None []]]"

definition scenario_fs :: FS where
  "scenario_fs =
     \<lparr>os_Stat = (\<lambda>p. if p = ''/mnt/lib/firmware'' then None else Some ErrNotExist),
      os_Lstat = (\<lambda>p. if p = ''/mnt/lib/firmware'' then Inr scenario_dir else Inl ErrNotExist),
      GetDiskSpace = (\<lambda>p. Inl ''no such file or directory'')\<rparr>"


text \<open>A root that is a symbolic link to a directory: \<open>os.Stat\<close> follows the link and
  succeeds, \<open>os.Lstat\<close> gives the link itself, which is no directory.\<close>

definition link_entry :: DirEntry where
  "link_entry =
     DirEntry ''current'' False
       (Inr \<lparr>info_Size = 12, info_ModTime = 0, info_IsDir = False,
             info_Mode = ''Lrwxrwxrwx''\<rparr>)
       None []"

definition link_fs :: FS where
  "link_fs =
     \<lparr>os_Stat = (\<lambda>p. if p = ''/fw/current'' then None else Some ErrNotExist),
      os_Lstat = (\<lambda>p. if p = ''/fw/current'' then Inr link_entry else Inl ErrNotExist),
      GetDiskSpace = (\<lambda>p. Inl ''no such file or directory'')\<rparr>"

section \<open>Lemmas about the path functions\<close>

lemma split_sep_nonempty [simp]: "split_sep s \<noteq> []"
  by (induction s) (auto split: list.splits)

lemma split_sep_no_sep: "e \<in> set (split_sep s) \<Longrightarrow> CHR ''/'' \<notin> set e"
  by (induction s arbitrary: e) (auto split: list.splits if_splits)

lemma split_sep_single: "CHR ''/'' \<notin> set e \<Longrightarrow> split_sep e = [e]"
  by (induction e) auto

lemma split_sep_append: "split_sep (a @ CHR ''/'' # b) = split_sep a @ split_sep b"
proof (induction a)
  case Nil
  then show ?case by simp
next
  case (Cons c a)
  then show ?case by (cases "split_sep a") (auto split: list.splits)
qed

lemma split_sep_cons_field:
  "CHR ''/'' \<notin> set e \<Longrightarrow> split_sep (e @ CHR ''/'' # b) = e # split_sep b"
  by (simp add: split_sep_append split_sep_single)

lemma split_join:
  "xs \<noteq> [] \<Longrightarrow> \<forall>e \<in> set xs. CHR ''/'' \<notin> set e \<Longrightarrow> split_sep (join_sep xs) = xs"
  by (induction xs rule: join_sep.induct) (auto simp: split_sep_single split_sep_cons_field)

lemma join_sep_snoc: "xs \<noteq> [] \<Longrightarrow> join_sep (xs @ [y]) = join_sep xs @ CHR ''/'' # y"
  by (induction xs rule: join_sep.induct) auto

lemma join_sep_Cons: "ys \<noteq> [] \<Longrightarrow> join_sep (e # ys) = e @ CHR ''/'' # join_sep ys"
  by (cases ys) auto

lemma join_sep_append:
  "xs \<noteq> [] \<Longrightarrow> ys \<noteq> [] \<Longrightarrow> join_sep (xs @ ys) = join_sep xs @ CHR ''/'' # join_sep ys"
  by (induction xs rule: join_sep.induct) (auto simp: join_sep_Cons)

lemma join_sep_prefix: "xs \<noteq> [] \<Longrightarrow> prefix (join_sep xs) (join_sep (xs @ ys))"
  by (cases "ys = []") (auto simp: join_sep_append)

lemma join_sep_hd: "xs \<noteq> [] \<Longrightarrow> hd xs \<noteq> [] \<Longrightarrow> join_sep xs \<noteq> [] \<and> hd (join_sep xs) = hd (hd xs)"
  by (induction xs rule: join_sep.induct) auto

lemma clean_elem_cleaned:
  "cleaned r out \<Longrightarrow> CHR ''/'' \<notin> set e \<Longrightarrow> cleaned r (clean_elem r out e)"
  by (cases out) auto

lemma foldl_cleaned:
  "cleaned r out \<Longrightarrow> \<forall>e \<in> set es. CHR ''/'' \<notin> set e \<Longrightarrow> cleaned r (foldl (clean_elem r) out es)"
proof (induction es arbitrary: out)
  case Nil
  then show ?case by simp
next
  case (Cons e es)
  then show ?case using clean_elem_cleaned [of r out e] by simp
qed

lemma cleaned_clean_out: "cleaned (is_rooted p) (clean_out p)"
  unfolding clean_out_def by (rule foldl_cleaned) (auto dest: split_sep_no_sep)

lemma Clean_render: "Clean p = render (is_rooted p) (rev (clean_out p))"
  by (cases p) (auto simp: Clean_def render_def is_rooted_def clean_out_def Let_def)

lemma cleaned_push_all: "cleaned r out \<Longrightarrow> foldl (clean_elem r) [] (rev out) = out"
proof (induction out)
  case Nil
  then show ?case by simp
next
  case (Cons t ts)
  then have IH: "foldl (clean_elem r) [] (rev ts) = ts" by (simp del: clean_elem.simps)
  have "foldl (clean_elem r) [] (rev (t # ts)) = clean_elem r ts t"
    by (simp del: clean_elem.simps add: IH)
  also have "\<dots> = t # ts"
  proof (cases "t = ''..''")
    case True
    with Cons.prems show ?thesis by (cases ts) auto
  next
    case False
    with Cons.prems show ?thesis by auto
  qed
  finally show ?case .
qed

lemma cleaned_no_sep: "cleaned r out \<Longrightarrow> e \<in> set out \<Longrightarrow> e \<noteq> [] \<and> CHR ''/'' \<notin> set e \<and> e \<noteq> ''.''"
  by (induction out) auto

lemma render_rooted: "cleaned r out \<Longrightarrow> is_rooted (render r (rev out)) = r"
proof (cases r)
  case True
  then show ?thesis by (simp add: render_def is_rooted_def)
next
  case False
  assume c: "cleaned r out"
  show ?thesis
  proof (cases "out = []")
    case True
    with False show ?thesis by (simp add: render_def is_rooted_def)
  next
    case ne: False
    then have "rev out \<noteq> []" by simp
    moreover have h: "hd (rev out) \<in> set out" using ne by (metis hd_in_set set_rev rev_is_Nil_conv)
    then have "hd (rev out) \<noteq> []" and ns: "CHR ''/'' \<notin> set (hd (rev out))" using cleaned_no_sep [OF c] by auto
    ultimately have j: "join_sep (rev out) \<noteq> []" "hd (join_sep (rev out)) = hd (hd (rev out))"
      using join_sep_hd by auto
    have "hd (hd (rev out)) \<in> set (hd (rev out))" using \<open>hd (rev out) \<noteq> []\<close> by simp
    with ns have "hd (hd (rev out)) \<noteq> CHR ''/''" by auto
    with j False ne show ?thesis by (simp add: render_def is_rooted_def)
  qed
qed

lemma clean_out_render: 
  assumes c: "cleaned r out" shows "clean_out (render r (rev out)) = out"
proof -
  have ro: "is_rooted (render r (rev out)) = r" using render_rooted [OF c] .
  have ns: "\<forall>e \<in> set (rev out). CHR ''/'' \<notin> set e" using cleaned_no_sep [OF c] by auto
  show ?thesis
  proof (cases "out = []")
    case True
    then show ?thesis unfolding clean_out_def ro by (cases r) (simp_all add: render_def)
  next
    case False
    then have sj: "split_sep (join_sep (rev out)) = rev out" using split_join ns by simp
    show ?thesis unfolding clean_out_def ro using False sj cleaned_push_all [OF c]
      by (cases r) (simp_all add: render_def)
  qed
qed

lemma Clean_idem_render: "cleaned r out \<Longrightarrow> Clean (render r (rev out)) = render r (rev out)"
  by (simp add: Clean_render render_rooted clean_out_render)


lemma clean_out_Nil: "clean_out [] = []"
  by (simp add: clean_out_def)

lemma valid_name_unrooted: "valid_name n \<Longrightarrow> \<not> is_rooted n"
  by (cases n) (auto simp: valid_name_def is_rooted_def)

lemma clean_elem_valid: "valid_name n \<Longrightarrow> clean_elem r out n = n # out"
  by (simp add: valid_name_def)

lemma cleaned_push_valid: "cleaned r out \<Longrightarrow> valid_name n \<Longrightarrow> cleaned r (n # out)"
  by (simp add: valid_name_def)

lemma is_rooted_append: "p \<noteq> [] \<Longrightarrow> is_rooted (p @ q) = is_rooted p"
  by (cases p) (auto simp: is_rooted_def)

lemma clean_out_append:
  "p \<noteq> [] \<Longrightarrow>
   clean_out (p @ CHR ''/'' # q) = foldl (clean_elem (is_rooted p)) (clean_out p) (split_sep q)"
  by (simp add: clean_out_def is_rooted_append split_sep_append del: clean_elem.simps)

lemma Join_valid:
  assumes v: "valid_name n"
  shows "Join [p, n] = render (is_rooted p) (rev (n # clean_out p))"
proof (cases "p = []")
  case True
  have n: "n \<noteq> []" "CHR ''/'' \<notin> set n" using v by (auto simp: valid_name_def)
  have "clean_out n = [n]"
    using v n by (simp add: clean_out_def split_sep_single clean_elem_valid del: clean_elem.simps)
  then have "Clean n = render False [n]"
    using valid_name_unrooted [OF v] by (simp add: Clean_render)
  with True n show ?thesis by (simp add: clean_out_Nil is_rooted_def)
next
  case False
  have n: "CHR ''/'' \<notin> set n" using v by (auto simp: valid_name_def)
  have "clean_out (p @ CHR ''/'' # n) = n # clean_out p"
    using False v n
    by (simp add: clean_out_append split_sep_single clean_elem_valid del: clean_elem.simps)
  then have "Clean (p @ CHR ''/'' # n) = render (is_rooted p) (rev (n # clean_out p))"
    using False by (simp add: Clean_render is_rooted_append)
  with False show ?thesis by simp
qed

lemma Join_valid_out:
  assumes v: "valid_name n"
  shows "clean_out (Join [p, n]) = n # clean_out p" and "is_rooted (Join [p, n]) = is_rooted p"
proof -
  have c: "cleaned (is_rooted p) (n # clean_out p)"
    using cleaned_push_valid [OF cleaned_clean_out v] .
  show "clean_out (Join [p, n]) = n # clean_out p"
    unfolding Join_valid [OF v] by (rule clean_out_render [OF c])
  show "is_rooted (Join [p, n]) = is_rooted p"
    unfolding Join_valid [OF v] by (rule render_rooted [OF c])
qed

lemma walk_path_out:
  "\<forall>n \<in> set ns. valid_name n \<Longrightarrow>
   clean_out (walk_path root ns) = rev ns @ clean_out root \<and>
   is_rooted (walk_path root ns) = is_rooted root"
proof (induction ns arbitrary: root)
  case Nil
  then show ?case by (simp add: walk_path_def)
next
  case (Cons n ns)
  then have v: "valid_name n" and vs: "\<forall>n \<in> set ns. valid_name n" by auto
  have "walk_path root (n # ns) = walk_path (Join [root, n]) ns"
    by (simp add: walk_path_def)
  with Cons.IH [OF vs, of "Join [root, n]"] Join_valid_out [OF v, of root]
  show ?case by simp
qed

lemma walk_path_snoc: "walk_path root (ns @ [n]) = Join [walk_path root ns, n]"
  by (simp add: walk_path_def)

lemma walk_path_differs:
  assumes "ns \<noteq> []" and "\<forall>n \<in> set ns. valid_name n"
  shows "walk_path root ns \<noteq> root"
proof
  assume "walk_path root ns = root"
  then have "clean_out (walk_path root ns) = clean_out root" by simp
  with walk_path_out [OF assms(2), of root] have "rev ns @ clean_out root = clean_out root" by simp
  then have "length (rev ns @ clean_out root) = length (clean_out root)" by simp
  with assms(1) show False by simp
qed

lemma drop_common_append: "drop_common xs (xs @ ys) = ([], ys)"
proof (induction xs)
  case Nil
  then show ?case by (cases ys) auto
next
  case (Cons x xs)
  then show ?case by simp
qed

lemma cleaned_append: "cleaned r (xs @ ys) \<Longrightarrow> cleaned r ys"
  by (induction xs) auto

lemma join_sep_nonempty: "cleaned r out \<Longrightarrow> out \<noteq> [] \<Longrightarrow> join_sep (rev out) \<noteq> []"
proof -
  assume c: "cleaned r out" and ne: "out \<noteq> []"
  then have "hd (rev out) \<in> set out" by (metis hd_in_set set_rev rev_is_Nil_conv)
  then have "hd (rev out) \<noteq> []" using cleaned_no_sep [OF c] by auto
  with ne show ?thesis using join_sep_hd [of "rev out"] by simp
qed

lemma rel_elems_rooted:
  assumes c: "cleaned True out"
  shows "rel_elems (render True (rev out)) = [] # rev out"
proof (cases "out = []")
  case True
  then show ?thesis by (simp add: render_def rel_elems_def)
next
  case False
  have ns: "\<forall>e \<in> set (rev out). CHR ''/'' \<notin> set e" using cleaned_no_sep [OF c] by auto
  have "join_sep (rev out) \<noteq> []" using join_sep_nonempty [OF c False] .
  moreover have "split_sep (join_sep (rev out)) = rev out" using split_join ns False by simp
  ultimately show ?thesis by (simp add: render_def rel_elems_def)
qed

lemma rel_elems_unrooted:
  assumes c: "cleaned False out" and ne: "out \<noteq> []"
  shows "rel_elems (render False (rev out)) = rev out"
    and "render False (rev out) \<noteq> ''.''"
    and "\<not> is_rooted (render False (rev out))"
proof -
  have ns: "\<forall>e \<in> set (rev out). CHR ''/'' \<notin> set e" using cleaned_no_sep [OF c] by auto
  have j: "join_sep (rev out) \<noteq> []" using join_sep_nonempty [OF c ne] .
  have sj: "split_sep (join_sep (rev out)) = rev out" using split_join ns ne by simp
  show nr: "\<not> is_rooted (render False (rev out))" using render_rooted [OF c] by simp
  show nd: "render False (rev out) \<noteq> ''.''"
  proof
    assume "render False (rev out) = ''.''"
    with ne have "join_sep (rev out) = ''.''" by (simp add: render_def)
    then have "split_sep (join_sep (rev out)) = [''.'']" by simp
    with sj have "''.'' \<in> set out" by (metis list.set_intros(1) set_rev)
    with cleaned_no_sep [OF c] show False by blast
  qed
  have "render False (rev out) \<noteq> ''/''" using nr by (auto simp: is_rooted_def)
  with j sj ne show "rel_elems (render False (rev out)) = rev out"
    by (simp add: render_def rel_elems_def)
qed

lemma Rel_walk_path:
  assumes ne: "ns \<noteq> []" and v: "\<forall>n \<in> set ns. valid_name n"
  shows "Rel root (walk_path root ns) = Inr (join_sep ns)"
proof -
  define r where "r = is_rooted root"
  define st where "st = clean_out root"
  have c: "cleaned r st" unfolding r_def st_def by (rule cleaned_clean_out)
  have wo: "clean_out (walk_path root ns) = rev ns @ st" "is_rooted (walk_path root ns) = r"
    using walk_path_out [OF v, of root] by (simp_all add: r_def st_def)
  have c2: "cleaned r (rev ns @ st)"
    using cleaned_clean_out [of "walk_path root ns"] wo by simp
  have base: "Clean root = render r (rev st)" by (simp add: Clean_render r_def st_def)
  have targ: "Clean (walk_path root ns) = render r (rev st @ ns)"
    by (simp add: Clean_render wo)
  have diff: "render r (rev st @ ns) \<noteq> render r (rev st)"
  proof
    assume "render r (rev st @ ns) = render r (rev st)"
    then have "clean_out (render r (rev (rev ns @ st))) = clean_out (render r (rev st))" by simp
    then have "rev ns @ st = st" by (simp only: clean_out_render [OF c] clean_out_render [OF c2])
    then have "length (rev ns @ st) = length st" by simp
    with ne show False by simp
  qed
  have ne2: "rev ns @ st \<noteq> []" using ne by simp
  show ?thesis
  proof (cases r)
    case True
    have eb: "rel_elems (render True (rev st)) = [] # rev st"
      using rel_elems_rooted [of st] c True by simp
    have et: "rel_elems (render True (rev st @ ns)) = [] # rev st @ ns"
      using rel_elems_rooted [of "rev ns @ st"] c2 True by simp
    have nd: "render True (rev st) \<noteq> ''.''" by (simp add: render_def)
    have hb: "render True (rev st) \<noteq> [] \<and> hd (render True (rev st)) = CHR ''/''"
      by (simp add: render_def)
    have ht: "render True (rev st @ ns) \<noteq> [] \<and> hd (render True (rev st @ ns)) = CHR ''/''"
      by (simp add: render_def)
    have ndt: "render True (rev st @ ns) \<noteq> ''.''" by (simp add: render_def)
    have dc: "drop_common ([] # rev st) ([] # rev st @ ns) = ([], ns)"
      using drop_common_append [of "[] # rev st" ns] by simp
    show ?thesis
      unfolding Rel_def base targ using diff True nd ndt hb ht ne
      by (simp add: Let_def eb et dc del: drop_common.simps)
  next
    case False
    have nrt: "\<not> is_rooted (render False (rev st @ ns))"
      and et: "rel_elems (render False (rev st @ ns)) = rev st @ ns"
      and ndt: "render False (rev st @ ns) \<noteq> ''.''"
      using rel_elems_unrooted [of "rev ns @ st"] ne2 c2 False by simp_all
    have ht: "\<not> (render False (rev st @ ns) \<noteq> [] \<and> hd (render False (rev st @ ns)) = CHR ''/'')"
      using nrt by (simp add: is_rooted_def)
    show ?thesis
    proof (cases "st = []")
      case True
      have dc: "drop_common [] ns = ([], ns)" by (cases ns) auto
      have b0: "render False [] = ''.''" by (simp add: render_def)
      have e0: "rel_elems [] = []" by (simp add: rel_elems_def)
      show ?thesis
        unfolding Rel_def base targ using diff False True ht ne et ndt
        by (simp add: Let_def b0 e0 dc del: drop_common.simps)
    next
      case ne3: False
      have eb: "rel_elems (render False (rev st)) = rev st"
        and nd: "render False (rev st) \<noteq> ''.''"
        and nrb: "\<not> is_rooted (render False (rev st))"
        using rel_elems_unrooted [of st] ne3 c False by simp_all
      have hb: "\<not> (render False (rev st) \<noteq> [] \<and> hd (render False (rev st)) = CHR ''/'')"
        using nrb by (simp add: is_rooted_def)
      have dc: "drop_common (rev st) (rev st @ ns) = ([], ns)" by (rule drop_common_append)
      show ?thesis
        unfolding Rel_def base targ using diff False nd ndt hb ht ne
        by (simp add: Let_def eb et dc del: drop_common.simps)
    qed
  qed
qed

lemma HasPrefix_slash: "HasPrefix s ''/'' \<longleftrightarrow> is_rooted s"
  by (cases s) (auto simp: HasPrefix_def is_rooted_def)

lemma foldl_stays_below:
  "stays_below (length ys) es \<Longrightarrow> ''..'' \<notin> set ys \<Longrightarrow>
   foldl (clean_elem r) (ys @ st) es = foldl (clean_elem r) ys es @ st"
proof (induction es arbitrary: ys)
  case Nil
  then show ?case by simp
next
  case (Cons e es)
  show ?case
  proof (cases "e = [] \<or> e = ''.''")
    case True
    with Cons show ?thesis by simp
  next
    case False
    show ?thesis
    proof (cases "e = ''..''")
      case True
      with Cons.prems obtain t ts where ys: "ys = t # ts" and k: "stays_below (length ts) es"
        by (cases ys) auto
      with Cons.prems have t: "t \<noteq> ''..''" and ts: "''..'' \<notin> set ts" by auto
      from Cons.IH [OF k ts] True ys t show ?thesis by simp
    next
      case ne: False
      with False Cons.prems have k: "stays_below (length (e # ys)) es"
        and n: "''..'' \<notin> set (e # ys)" by auto
      from Cons.IH [OF k n] False ne show ?thesis by simp
    qed
  qed
qed

lemma no_dotdot_stays_below: "''..'' \<notin> set es \<Longrightarrow> stays_below k es"
  by (induction es arbitrary: k) auto

section \<open>Lemmas about the walk\<close>

lemma records_of_append: "records_of (xs @ ys) = records_of xs @ records_of ys"
  by (induction xs rule: records_of.induct) (auto split: sum.splits)

lemma visited_longer:
  "(ns, e) \<in> set (visited pre d) \<Longrightarrow> length pre \<le> length ns"
  "(ns, e) \<in> set (visited_entries pre ds) \<Longrightarrow> length pre < length ns"
  by (induction pre d and pre ds arbitrary: ns e and ns e rule: visited_visited_entries.induct)
     (fastforce split: if_splits)+

lemma visited_hd: "visited pre d = (pre, d) # tl (visited pre d)"
  by (cases d) simp

lemma descendants_names: "(ns, e) \<in> set (descendants d) \<Longrightarrow> ns \<noteq> []"
proof -
  assume a: "(ns, e) \<in> set (descendants d)"
  obtain n isdir info rerr dirs where d: "d = DirEntry n isdir info rerr dirs" by (cases d)
  with a have "(ns, e) \<in> set (visited_entries [] dirs)"
    by (auto simp: descendants_def split: if_splits)
  from visited_longer(2) [OF this] show ?thesis by auto
qed

lemma recs_append: "recs (xs @ ys) = recs xs @ recs ys"
  by (simp add: recs_def records_of_append)

lemma recs_Cons: "recs (x # xs) = recs [x] @ recs xs"
  using recs_append [of "[x]" xs] by simp

lemma recs_Nil: "recs [] = []" by (simp add: recs_def)

lemma walk_visits:
  fixes fn :: "FirmwareFileInfo list WalkDirFunc"
  assumes visit: "\<And>pre d files. \<forall>n \<in> set pre. valid_name n \<Longrightarrow>
            fn (walk_path root pre) (Visit d) files = (None, files @ recs [(pre, d)])"
      and rderr: "\<And>p d e files. fn p (ReadDirFailed d e) files = (None, files)"
  shows "(\<forall>(ns, e) \<in> set (visited pre d). \<forall>n \<in> set ns. valid_name n) \<Longrightarrow>
           walkDir fn (walk_path root pre) d files = (None, files @ recs (visited pre d))"
    and "(\<forall>(ns, e) \<in> set (visited_entries pre ds). \<forall>n \<in> set ns. valid_name n) \<Longrightarrow>
           walkEntries fn (walk_path root pre) ds files = (None, files @ recs (visited_entries pre ds))"
proof (induction pre d and pre ds arbitrary: files and files rule: visited_visited_entries.induct)
  case (1 names n isdir info rerr dirs)
  let ?d = "DirEntry n isdir info rerr dirs"
  from "1.prems" have v: "\<forall>n \<in> set names. valid_name n" by simp
  have first: "fn (walk_path root names) (Visit ?d) files = (None, files @ recs [(names, ?d)])"
    using visit [OF v] .
  show ?case
  proof (cases isdir)
    case False
    with first show ?thesis by (simp add: recs_def)
  next
    case True
    from "1.prems" True have vs: "\<forall>(ns, e) \<in> set (visited_entries names dirs). \<forall>n \<in> set ns. valid_name n"
      by simp
    have rest: "walkEntries fn (walk_path root names) dirs st
        = (None, st @ recs (visited_entries names dirs))" for st
      using "1.IH" [OF True vs] .
    have "visited names ?d = (names, ?d) # visited_entries names dirs" using True by simp
    then have r: "recs (visited names ?d) = recs [(names, ?d)] @ recs (visited_entries names dirs)"
      using recs_Cons [of "(names, ?d)" "visited_entries names dirs"] by simp
    show ?thesis
      unfolding r using True first rest rderr by (cases rerr) simp_all
  qed
next
  case (2 names)
  then show ?case by (simp add: recs_Nil)
next
  case (3 names d1 ds)
  from "3.prems" have v1: "\<forall>(ns, e) \<in> set (visited (names @ [entry_Name d1]) d1). \<forall>n \<in> set ns. valid_name n"
    and v2: "\<forall>(ns, e) \<in> set (visited_entries names ds). \<forall>n \<in> set ns. valid_name n"
    by auto
  have p: "Join [walk_path root names, entry_Name d1] = walk_path root (names @ [entry_Name d1])"
    by (simp add: walk_path_snoc)
  show ?case
    using "3.IH"(1) [OF v1] "3.IH"(2) [OF v2]
    by (simp add: p recs_append del: Join.simps)
qed

lemma firmware_visit:
  assumes v: "\<forall>n \<in> set pre. valid_name n"
  shows "firmwareWalkFn root (walk_path root pre) (Visit d) files = (None, files @ recs [(pre, d)])"
proof (cases "pre = []")
  case True
  then show ?thesis by (simp add: firmwareWalkFn_def walk_path_def recs_def)
next
  case False
  have "walk_path root pre \<noteq> root" using walk_path_differs [OF False v] .
  moreover have "Rel root (walk_path root pre) = Inr (join_sep pre)"
    using Rel_walk_path [OF False v] .
  ultimately show ?thesis using False
    by (simp add: firmwareWalkFn_def recs_def file_record_def split: sum.splits)
qed

lemma sonic_image_visit:
  assumes v: "\<forall>n \<in> set pre. valid_name n"
  shows "sonicImageWalkFn root (walk_path root pre) (Visit d) files = (None, files @ recs [(pre, d)])"
proof (cases "pre = []")
  case True
  then show ?thesis by (simp add: sonicImageWalkFn_def walk_path_def recs_def)
next
  case False
  have "walk_path root pre \<noteq> root" using walk_path_differs [OF False v] .
  moreover have "Rel root (walk_path root pre) = Inr (join_sep pre)"
    using Rel_walk_path [OF False v] .
  ultimately show ?thesis using False
    by (simp add: sonicImageWalkFn_def recs_def file_record_def split: sum.splits)
qed

lemma recs_visited_root: "recs (visited [] d) = records_of (descendants d)"
proof -
  have "filter (\<lambda>(ns, e). ns \<noteq> []) (descendants d) = descendants d"
    by (rule filter_True) (auto dest: descendants_names)
  moreover have "visited [] d = ([], d) # descendants d"
    using visited_hd [of "[]" d] by (simp add: descendants_def)
  ultimately show ?thesis by (simp add: recs_def)
qed

lemma valid_names_visited:
  "valid_names d \<Longrightarrow> \<forall>(ns, e) \<in> set (visited [] d). \<forall>n \<in> set ns. valid_name n"
proof -
  assume "valid_names d"
  moreover have "visited [] d = ([], d) # descendants d"
    using visited_hd [of "[]" d] by (simp add: descendants_def)
  ultimately show ?thesis by (auto simp: valid_names_def)
qed

lemma walkEntries_never_fails:
  fixes fn :: "'st WalkDirFunc"
  assumes "\<And>d p st. d \<in> set ds \<Longrightarrow> fst (walkDir fn p d st) = None"
  shows "fst (walkEntries fn p ds st) = None"
  using assms
proof (induction ds arbitrary: st)
  case Nil
  then show ?case by simp
next
  case (Cons d1 ds)
  obtain st1 where a: "walkDir fn (Join [p, entry_Name d1]) d1 st = (None, st1)"
    using Cons.prems [of d1 "Join [p, entry_Name d1]" st]
    by (cases "walkDir fn (Join [p, entry_Name d1]) d1 st") auto
  have "fst (walkEntries fn p ds st1) = None"
    by (rule Cons.IH) (simp add: Cons.prems)
  with a show ?case by (simp del: Join.simps)
qed

lemma walk_never_fails:
  fixes fn :: "'st WalkDirFunc"
  assumes ok: "\<And>p a st. fst (fn p a st) = None"
  shows "fst (walkDir fn p d st) = None"
proof (induction d arbitrary: p st)
  case (DirEntry n isdir info rerr dirs)
  let ?d = "DirEntry n isdir info rerr dirs"
  have kids: "fst (walkEntries fn p dirs st') = None" for st'
    by (rule walkEntries_never_fails) (rule DirEntry.IH)
  obtain st1 where a: "fn p (Visit ?d) st = (None, st1)"
    using ok [of p "Visit ?d" st] by (cases "fn p (Visit ?d) st") auto
  show ?case
  proof (cases rerr)
    case None
    with a kids [of st1] show ?thesis by (cases isdir) simp_all
  next
    case (Some e)
    obtain st2 where b: "fn p (ReadDirFailed ?d e) st1 = (None, st2)"
      using ok [of p "ReadDirFailed ?d e" st1] by (cases "fn p (ReadDirFailed ?d e) st1") auto
    with a Some kids [of st2] show ?thesis by (cases isdir) simp_all
  qed
qed

lemma WalkDir_never_fails:
  fixes fn :: "'st WalkDirFunc"
  assumes ok: "\<And>p a st. fst (fn p a st) = None"
  shows "fst (WalkDir fs root fn st) = None"
proof (cases "os_Lstat fs root")
  case (Inl e)
  obtain st1 where "fn root (LstatFailed e) st = (None, st1)"
    using ok [of root "LstatFailed e" st] by (cases "fn root (LstatFailed e) st") auto
  with Inl show ?thesis by (simp add: WalkDir_def)
next
  case (Inr d)
  obtain st1 where "walkDir fn root d st = (None, st1)"
    using walk_never_fails [of fn root d st, OF ok] by (cases "walkDir fn root d st") auto
  with Inr show ?thesis by (simp add: WalkDir_def)
qed

lemma firmwareWalkFn_nil: "fst (firmwareWalkFn root p a st) = None"
  by (auto simp: firmwareWalkFn_def Let_def split: walk_arg.splits sum.splits)

lemma sonicImageWalkFn_nil: "fst (sonicImageWalkFn root p a st) = None"
  by (auto simp: sonicImageWalkFn_def split: walk_arg.splits sum.splits)

lemma WalkDir_firmware:
  assumes "os_Lstat fs root = Inr d" and "valid_names d"
  shows "WalkDir fs root (firmwareWalkFn root) [] = (None, records_of (descendants d))"
proof -
  have "walkDir (firmwareWalkFn root) (walk_path root []) d [] = (None, [] @ recs (visited [] d))"
  proof (rule walk_visits(1))
    show "firmwareWalkFn root (walk_path root pre) (Visit e) files = (None, files @ recs [(pre, e)])"
      if "\<forall>n \<in> set pre. valid_name n" for pre e files
      using that by (rule firmware_visit)
    show "firmwareWalkFn root p (ReadDirFailed e err) files = (None, files)" for p e err files
      by (simp add: firmwareWalkFn_def)
    show "\<forall>(ns, e) \<in> set (visited [] d). \<forall>n \<in> set ns. valid_name n"
      using assms(2) by (rule valid_names_visited)
  qed
  then show ?thesis using assms(1) by (simp add: WalkDir_def walk_path_def recs_visited_root)
qed

lemma WalkDir_sonic_image:
  assumes "os_Lstat fs root = Inr d" and "valid_names d"
  shows "WalkDir fs root (sonicImageWalkFn root) [] = (None, records_of (descendants d))"
proof -
  have "walkDir (sonicImageWalkFn root) (walk_path root []) d [] = (None, [] @ recs (visited [] d))"
  proof (rule walk_visits(1))
    show "sonicImageWalkFn root (walk_path root pre) (Visit e) files = (None, files @ recs [(pre, e)])"
      if "\<forall>n \<in> set pre. valid_name n" for pre e files
      using that by (rule sonic_image_visit)
    show "sonicImageWalkFn root p (ReadDirFailed e err) files = (None, files)" for p e err files
      by (simp add: sonicImageWalkFn_def)
    show "\<forall>(ns, e) \<in> set (visited [] d). \<forall>n \<in> set ns. valid_name n"
      using assms(2) by (rule valid_names_visited)
  qed
  then show ?thesis using assms(1) by (simp add: WalkDir_def walk_path_def recs_visited_root)
qed

lemma ListFirmwareFiles_snd:
  "snd (ListFirmwareFiles root fs directory) =
     (case os_Stat fs (resolveFilesystemPath directory root) of
        Some ErrNotExist \<Rightarrow> Inl (DirectoryDoesNotExist directory)
      | Some (ErrOther m) \<Rightarrow> Inl (FailedToAccessDirectory directory (ErrOther m))
      | None \<Rightarrow> Inr (snd (WalkDir fs (resolveFilesystemPath directory root)
                           (firmwareWalkFn (resolveFilesystemPath directory root)) [])))"
proof -
  let ?p = "resolveFilesystemPath directory root"
  obtain files where "WalkDir fs ?p (firmwareWalkFn ?p) [] = (None, files)"
    using WalkDir_never_fails [of "firmwareWalkFn ?p" fs ?p "[]", OF firmwareWalkFn_nil]
    by (cases "WalkDir fs ?p (firmwareWalkFn ?p) []") auto
  then show ?thesis
    by (simp add: ListFirmwareFiles_def Let_def split: option.splits os_error.splits)
qed

lemma ListSonicImageFiles_snd:
  "snd (ListSonicImageFiles directory root fs) =
     (case os_Stat fs (resolveFilesystemPath directory root) of
        Some ErrNotExist \<Rightarrow> Inl (DirectoryDoesNotExist directory)
      | Some (ErrOther m) \<Rightarrow> Inl (FailedToAccessDirectory directory (ErrOther m))
      | None \<Rightarrow> Inr (snd (WalkDir fs (resolveFilesystemPath directory root)
                           (sonicImageWalkFn (resolveFilesystemPath directory root)) [])))"
proof -
  let ?p = "resolveFilesystemPath directory root"
  obtain files where "WalkDir fs ?p (sonicImageWalkFn ?p) [] = (None, files)"
    using WalkDir_never_fails [of "sonicImageWalkFn ?p" fs ?p "[]", OF sonicImageWalkFn_nil]
    by (cases "WalkDir fs ?p (sonicImageWalkFn ?p) []") auto
  then show ?thesis
    by (simp add: ListSonicImageFiles_def Let_def split: option.splits os_error.splits)
qed

lemma records_of_mem:
  "(names, e) \<in> set xs \<Longrightarrow> entry_Info e = Inr info \<Longrightarrow>
   file_record (join_sep names) info \<in> set (records_of xs)"
  by (induction xs rule: records_of.induct) (auto split: sum.splits)

lemma records_of_all:
  "\<forall>(names, e) \<in> set xs. \<exists>info. entry_Info e = Inr info \<Longrightarrow>
   list_all2 (\<lambda>f (names, e). \<exists>info. entry_Info e = Inr info \<and> f = file_record (join_sep names) info)
     (records_of xs) xs"
  by (induction xs rule: records_of.induct) auto

lemma lookForFile_None: "lookForFile files filename = None \<longleftrightarrow> filename \<notin> FileName ` set files"
  by (induction files) auto

lemma lookForFile_Some:
  "lookForFile files filename = Some f \<Longrightarrow> f \<in> set files \<and> FileName f = filename"
  by (induction files) (auto split: if_splits)

lemma count_is_length:
  "snd (GetFirmwareFileCount root fs directory) =
     (case snd (ListFirmwareFiles root fs directory) of
        Inl err \<Rightarrow> Inl err | Inr files \<Rightarrow> Inr (int (length files)))"
  "snd (GetSonicImageFileCount directory root fs) =
     (case snd (ListSonicImageFiles directory root fs) of
        Inl err \<Rightarrow> Inl err | Inr files \<Rightarrow> Inr (int (length files)))"
  by (auto simp: GetFirmwareFileCount_def GetSonicImageFileCount_def split: prod.splits sum.splits)

lemma scenario_descendants:
  "descendants scenario_dir =
     [([''a.bin''], DirEntry ''a.bin'' False
          (Inr \<lparr>info_Size = 10, info_ModTime = 0, info_IsDir = False,
                info_Mode = ''-rw-r--r--''\<rparr>) None []),
      ([''b.fw''], DirEntry ''b.fw'' False
          (Inr \<lparr>info_Size = 20, info_ModTime = 0, info_IsDir = False,
                info_Mode = ''-rw-r--r--''\<rparr>) None []),
      ([''sub''], DirEntry ''sub'' True
          (Inr \<lparr>info_Size = 4096, info_ModTime = 0, info_IsDir = True,
                info_Mode = ''drwxr-xr-x''\<rparr>)
          None
          [DirEntry ''c.bin'' False
             (Inr \<lparr>info_Size = 5, info_ModTime = 0, info_IsDir = False,
                   info_Mode = ''-rw-r--r--''\<rparr>)
             None []]),
      ([''sub'', ''c.bin''], DirEntry ''c.bin'' False
             (Inr \<lparr>info_Size = 5, info_ModTime = 0, info_IsDir = False,
                   info_Mode = ''-rw-r--r--''\<rparr>)
             None [])]"
  by (simp add: descendants_def scenario_dir_def)

lemma visited_prefix:
  "(ns, e) \<in> set (visited pre d) \<Longrightarrow> prefix pre ns"
  "(ns, e) \<in> set (visited_entries pre ds) \<Longrightarrow> \<exists>k \<in> set ds. prefix (pre @ [entry_Name k]) ns"
proof (induction pre d and pre ds arbitrary: ns e and ns e rule: visited_visited_entries.induct)
  case (1 names n isdir info rerr dirs)
  then show ?case by (fastforce split: if_splits dest: append_prefixD)
next
  case (2 names)
  then show ?case by simp
next
  case (3 names d1 ds)
  then show ?case by fastforce
qed

lemma visited_distinct:
  "distinct_names d \<Longrightarrow> distinct (map fst (visited pre d))"
  "distinct (map entry_Name ds) \<Longrightarrow> \<forall>k \<in> set ds. distinct_names k \<Longrightarrow>
     distinct (map fst (visited_entries pre ds))"
proof (induction pre d and pre ds rule: visited_visited_entries.induct)
  case (1 names n isdir info rerr dirs)
  have "names \<notin> fst ` set (visited_entries names dirs)"
    using visited_longer(2) [of names _ names dirs] by force
  with 1 show ?case by auto
next
  case (2 names)
  then show ?case by simp
next
  case (3 names d1 ds)
  have "fst ` set (visited (names @ [entry_Name d1]) d1) \<inter> fst ` set (visited_entries names ds) = {}"
  proof (rule ccontr)
    assume "\<not> ?thesis"
    then obtain ns e e' where a: "(ns, e) \<in> set (visited (names @ [entry_Name d1]) d1)"
      and b: "(ns, e') \<in> set (visited_entries names ds)" by fastforce
    from visited_prefix(1) [OF a] have p1: "prefix (names @ [entry_Name d1]) ns" .
    from visited_prefix(2) [OF b] obtain k where k: "k \<in> set ds"
      and p2: "prefix (names @ [entry_Name k]) ns" by blast
    from p1 p2 have "entry_Name d1 = entry_Name k"
      by (auto simp: prefix_def)
    with k "3.prems"(1) show False by auto
  qed
  with 3 show ?case by auto
qed

lemma descendants_distinct: "distinct_names d \<Longrightarrow> distinct (map fst (descendants d))"
  using visited_distinct(1) [of d "[]"] by (simp add: descendants_def distinct_tl map_tl)

lemma join_sep_inj:
  assumes "xs \<noteq> []" "ys \<noteq> []" "\<forall>n \<in> set xs. valid_name n" "\<forall>n \<in> set ys. valid_name n"
    and "join_sep xs = join_sep ys"
  shows "xs = ys"
proof -
  have nx: "\<forall>e \<in> set xs. CHR ''/'' \<notin> set e" using assms(3) by (simp add: valid_name_def)
  have ny: "\<forall>e \<in> set ys. CHR ''/'' \<notin> set e" using assms(4) by (simp add: valid_name_def)
  have "xs = split_sep (join_sep xs)" by (rule split_join [OF assms(1) nx, symmetric])
  also have "\<dots> = split_sep (join_sep ys)" by (simp only: assms(5))
  also have "\<dots> = ys" by (rule split_join [OF assms(2) ny])
  finally show ?thesis .
qed

lemma records_of_names:
  "FileName ` set (records_of xs) \<subseteq> join_sep ` fst ` set xs"
  by (induction xs rule: records_of.induct) (auto simp: file_record_def split: sum.splits)

lemma records_of_distinct:
  assumes "distinct (map fst xs)"
    and "\<forall>(names, e) \<in> set xs. names \<noteq> [] \<and> (\<forall>n \<in> set names. valid_name n)"
  shows "distinct (map FileName (records_of xs))"
  using assms
proof (induction xs)
  case Nil
  then show ?case by simp
next
  case (Cons x rest)
  obtain names e where x: "x = (names, e)" by (cases x)
  from Cons have IH: "distinct (map FileName (records_of rest))" by simp
  have "join_sep names \<notin> FileName ` set (records_of rest)"
  proof
    assume "join_sep names \<in> FileName ` set (records_of rest)"
    with records_of_names [of rest] obtain ns' e' where m: "(ns', e') \<in> set rest"
      and j: "join_sep names = join_sep ns'" by force
    from Cons.prems(2) m x have "names \<noteq> []" "ns' \<noteq> []" "\<forall>n \<in> set names. valid_name n"
      "\<forall>n \<in> set ns'. valid_name n" by auto
    from join_sep_inj [OF this j] have "names = ns'" .
    with m Cons.prems(1) x show False by force
  qed
  with IH x show ?case by (auto simp: file_record_def split: sum.splits)
qed

lemma listing_names_distinct:
  assumes "valid_names d" and "distinct_names d"
  shows "distinct (map FileName (records_of (descendants d)))"
proof (rule records_of_distinct)
  show "distinct (map fst (descendants d))" using assms(2) by (rule descendants_distinct)
  show "\<forall>(names, e) \<in> set (descendants d). names \<noteq> [] \<and> (\<forall>n \<in> set names. valid_name n)"
    using assms(1) by (auto simp: valid_names_def dest: descendants_names)
qed

lemma info_is_lookup:
  "snd (GetFirmwareFileInfo root fs directory filename) =
     (case snd (ListFirmwareFiles root fs directory) of
        Inl err \<Rightarrow> Inl err
      | Inr files \<Rightarrow> (case lookForFile files filename of
                        Some file \<Rightarrow> Inr file | None \<Rightarrow> Inl (FileNotFound filename)))"
  "snd (GetSonicImageFileInfo directory filename root fs) =
     (case snd (ListSonicImageFiles directory root fs) of
        Inl err \<Rightarrow> Inl err
      | Inr files \<Rightarrow> (case lookForFile files filename of
                        Some file \<Rightarrow> Inr file | None \<Rightarrow> Inl (FileNotFound filename)))"
  by (auto simp: GetFirmwareFileInfo_def GetSonicImageFileInfo_def
        split: prod.splits sum.splits option.splits)

lemma list_error_not_FileNotFound:
  "snd (ListFirmwareFiles root fs directory) \<noteq> Inl (FileNotFound filename)"
  "snd (ListSonicImageFiles directory root fs) \<noteq> Inl (FileNotFound filename)"
  by (auto simp: ListFirmwareFiles_snd ListSonicImageFiles_snd
        split: option.splits os_error.splits)

lemma lookup_found:
  assumes "filename \<in> FileName ` set files"
  shows "\<exists>f \<in> set files. FileName f = filename \<and> lookForFile files filename = Some f \<and>
           (distinct (map FileName files) \<longrightarrow> (\<forall>g \<in> set files. FileName g = filename \<longrightarrow> g = f))"
proof -
  from assms have "lookForFile files filename \<noteq> None" by (simp add: lookForFile_None)
  then obtain f where f: "lookForFile files filename = Some f" by auto
  from lookForFile_Some [OF f] have m: "f \<in> set files" "FileName f = filename" by auto
  have "g = f" if "distinct (map FileName files)" "g \<in> set files" "FileName g = filename" for g
    using that m by (metis distinct_map inj_onD)
  with f m show ?thesis by blast
qed

section \<open>Properties of the classifiers\<close>

text \<open>
  C4. For a file-listing path (firmware or sonic-image) whose prefix matches the resource
  shape: length exactly 4 yields the selector \<open>list\<close>; length exactly 5 with the fifth
  element named \<open>count\<close> yields \<open>count\<close>; length exactly 5 with any other fifth
  element yields that element's name, the requested filename; any other length (which
  is then greater than 5) yields the invalid-structure error.
\<close>

theorem file_field_selector:
  "(isFirmwareFilesPath path \<longrightarrow>
      (length path = 4 \<longrightarrow> getFirmwareFileField path = Inr ''list'') \<and>
      (length path = 5 \<and> Name (path ! 4) = ''count'' \<longrightarrow>
         getFirmwareFileField path = Inr ''count'') \<and>
      (length path = 5 \<and> Name (path ! 4) \<noteq> ''count'' \<longrightarrow>
         getFirmwareFileField path = Inr (Name (path ! 4))) \<and>
      (length path \<noteq> 4 \<and> length path \<noteq> 5 \<longrightarrow>
         5 < length path \<and>
         getFirmwareFileField path = Inl InvalidFirmwareFilesPathStructure)) \<and>
   (isSonicImageFilesPath path \<longrightarrow>
      (length path = 4 \<longrightarrow> getSonicImageFileField path = Inr ''list'') \<and>
      (length path = 5 \<and> Name (path ! 4) = ''count'' \<longrightarrow>
         getSonicImageFileField path = Inr ''count'') \<and>
      (length path = 5 \<and> Name (path ! 4) \<noteq> ''count'' \<longrightarrow>
         getSonicImageFileField path = Inr (Name (path ! 4))) \<and>
      (length path \<noteq> 4 \<and> length path \<noteq> 5 \<longrightarrow>
         5 < length path \<and>
         getSonicImageFileField path = Inl InvalidSonicImageFilesPathStructure))"
proof -
  have fw: "isFirmwareFilesPath path \<Longrightarrow> 4 \<le> length path"
    by (simp add: isFirmwareFilesPath_def)
  have si: "isSonicImageFilesPath path \<Longrightarrow> 4 \<le> length path"
    by (simp add: isSonicImageFilesPath_def)
  show ?thesis
    using fw si by (auto simp: getFirmwareFileField_def getSonicImageFileField_def)
qed

theorem file_field_selector_witness:
  "isFirmwareFilesPath
     [\<lparr>Name = ''sonic'', Key = Map.empty\<rparr>, \<lparr>Name = ''system'', Key = Map.empty\<rparr>,
      \<lparr>Name = ''firmware'', Key = [''directory'' \<mapsto> ''/lib/firmware'']\<rparr>,
      \<lparr>Name = ''files'', Key = Map.empty\<rparr>, \<lparr>Name = ''a.bin'', Key = Map.empty\<rparr>] \<and>
   getFirmwareFileField
     [\<lparr>Name = ''sonic'', Key = Map.empty\<rparr>, \<lparr>Name = ''system'', Key = Map.empty\<rparr>,
      \<lparr>Name = ''firmware'', Key = [''directory'' \<mapsto> ''/lib/firmware'']\<rparr>,
      \<lparr>Name = ''files'', Key = Map.empty\<rparr>, \<lparr>Name = ''a.bin'', Key = Map.empty\<rparr>]
     = Inr ''a.bin'' \<and>
   isSonicImageFilesPath
     [\<lparr>Name = ''sonic'', Key = Map.empty\<rparr>, \<lparr>Name = ''system'', Key = Map.empty\<rparr>,
      \<lparr>Name = ''sonic-image'', Key = [''directory'' \<mapsto> ''/host/images'']\<rparr>,
      \<lparr>Name = ''files'', Key = Map.empty\<rparr>, \<lparr>Name = ''count'', Key = Map.empty\<rparr>,
      \<lparr>Name = ''extra'', Key = Map.empty\<rparr>] \<and>
   getSonicImageFileField
     [\<lparr>Name = ''sonic'', Key = Map.empty\<rparr>, \<lparr>Name = ''system'', Key = Map.empty\<rparr>,
      \<lparr>Name = ''sonic-image'', Key = [''directory'' \<mapsto> ''/host/images'']\<rparr>,
      \<lparr>Name = ''files'', Key = Map.empty\<rparr>, \<lparr>Name = ''count'', Key = Map.empty\<rparr>,
      \<lparr>Name = ''extra'', Key = Map.empty\<rparr>]
     = Inl InvalidSonicImageFilesPathStructure"
proof -
  let ?p = "[\<lparr>Name = ''sonic'', Key = Map.empty\<rparr>, \<lparr>Name = ''system'', Key = Map.empty\<rparr>,
      \<lparr>Name = ''firmware'', Key = [''directory'' \<mapsto> ''/lib/firmware'']\<rparr>,
      \<lparr>Name = ''files'', Key = Map.empty\<rparr>, \<lparr>Name = ''a.bin'', Key = Map.empty\<rparr>]"
  let ?q = "[\<lparr>Name = ''sonic'', Key = Map.empty\<rparr>, \<lparr>Name = ''system'', Key = Map.empty\<rparr>,
      \<lparr>Name = ''sonic-image'', Key = [''directory'' \<mapsto> ''/host/images'']\<rparr>,
      \<lparr>Name = ''files'', Key = Map.empty\<rparr>, \<lparr>Name = ''count'', Key = Map.empty\<rparr>,
      \<lparr>Name = ''extra'', Key = Map.empty\<rparr>]"
  have p: "isFirmwareFilesPath ?p"
    by (simp add: isFirmwareFilesPath_def isFirmwarePath_def)
  have q: "isSonicImageFilesPath ?q"
    by (simp add: isSonicImageFilesPath_def isSonicImagePath_def)
  from p file_field_selector [of ?p]
  have "getFirmwareFileField ?p = Inr ''a.bin''" by simp
  moreover from q file_field_selector [of ?q]
  have "getSonicImageFileField ?q = Inl InvalidSonicImageFilesPathStructure" by simp
  ultimately show ?thesis using p q by simp
qed

section \<open>Properties of the RootFS resolver\<close>

text \<open>
  C10. For every root other than the empty string and \<open>/\<close>, a logical path that begins
  with the root as a plain string of characters is returned unchanged, with no
  normalisation: also when it is not inside the root directory (\<open>/mntother/x\<close> for the
  root \<open>/mnt\<close>) and when it has \<open>..\<close> segments after the prefix (\<open>/mnt/../etc\<close>).
\<close>

theorem resolve_string_prefix_unchanged:
  assumes "root \<noteq> []" and "root \<noteq> ''/''" and "HasPrefix fsPath root"
  shows "resolveFilesystemPath fsPath root = fsPath"
  using assms by (simp add: resolveFilesystemPath_def)

theorem resolve_string_prefix_unchanged_witness:
  "HasPrefix ''/mntother/x'' ''/mnt'' \<and>
   resolveFilesystemPath ''/mntother/x'' ''/mnt'' = ''/mntother/x'' \<and>
   HasPrefix ''/mnt/../etc'' ''/mnt'' \<and>
   resolveFilesystemPath ''/mnt/../etc'' ''/mnt'' = ''/mnt/../etc''"
proof -
  have a: "HasPrefix ''/mntother/x'' ''/mnt''" by (simp add: HasPrefix_def)
  have b: "HasPrefix ''/mnt/../etc'' ''/mnt''" by (simp add: HasPrefix_def)
  have r: "''/mnt'' \<noteq> []" "''/mnt'' \<noteq> ''/''" by simp_all
  show ?thesis
    using a b resolve_string_prefix_unchanged [OF r a]
      resolve_string_prefix_unchanged [OF r b] by simp
qed

text \<open>
  C1 (containment). The claim: for a root other than the empty string and \<open>/\<close> and an
  absolute logical path, the resolved path is a descendant of the root, whatever \<open>..\<close>
  segments the path has. The code at the root \<open>/mnt\<close> and the path \<open>/../etc\<close>: the path
  does not begin with the root, it is absolute, so it is joined to the root, and the
  join's cleaning resolves the \<open>..\<close> against the root's own last element. The result
  \<open>/etc\<close> does not even begin with the root.
\<close>

theorem resolve_dotdot_escapes_root:
  "resolveFilesystemPath ''/../etc'' ''/mnt'' = ''/etc'' \<and>
   HasPrefix ''/../etc'' ''/'' \<and> \<not> HasPrefix ''/etc'' ''/mnt''"
  by (simp add: resolveFilesystemPath_def HasPrefix_def Clean_def)

text \<open>
  C5, as the code has it. The claim (resolving twice is resolving once, for every path
  and every root) fails for a root that is not in cleaned form and for a path whose
  \<open>..\<close> segments climb above its start. Resolving is idempotent for every root that is
  relative, empty, or absolute and in cleaned form (\<open>Clean(root) = root\<close>, which \<open>/\<close>
  is), and every logical path whose \<open>..\<close> segments never climb above the point where
  the path starts, as is every path without a \<open>..\<close> segment.
\<close>

theorem resolve_idempotent_below_root:
  assumes root: "HasPrefix root ''/'' \<longrightarrow> Clean root = root"
    and below: "stays_below 0 (split_sep fsPath)"
  shows "resolveFilesystemPath (resolveFilesystemPath fsPath root) root
           = resolveFilesystemPath fsPath root"
proof (cases "root = [] \<or> root = ''/'' \<or> HasPrefix fsPath root \<or> \<not> HasPrefix fsPath ''/''")
  case True
  then show ?thesis by (auto simp: resolveFilesystemPath_def)
next
  case False
  then have ne: "root \<noteq> []" and ns: "root \<noteq> ''/''" and np: "\<not> HasPrefix fsPath root"
    and ab: "HasPrefix fsPath ''/''" by auto
  let ?q = "Clean (root @ CHR ''/'' # fsPath)"
  have q: "resolveFilesystemPath fsPath root = ?q"
    using ne ns np ab by (simp add: resolveFilesystemPath_def)
  have co: "clean_out (root @ CHR ''/'' # fsPath)
              = foldl (clean_elem (is_rooted root)) [] (split_sep fsPath) @ clean_out root"
    using foldl_stays_below [of "[]" "split_sep fsPath" "is_rooted root" "clean_out root"] below ne
    by (simp add: clean_out_append del: clean_elem.simps)
  let ?ys = "foldl (clean_elem (is_rooted root)) [] (split_sep fsPath)"
  have qr: "?q = render (is_rooted root) (rev (clean_out root) @ rev ?ys)"
    using ne by (simp add: Clean_render is_rooted_append co)
  show ?thesis
  proof (cases "is_rooted root")
    case True
    with root have "Clean root = root" by (simp add: HasPrefix_slash)
    then have r: "root = CHR ''/'' # join_sep (rev (clean_out root))"
      using True by (simp add: Clean_render render_def)
    with ns have "rev (clean_out root) \<noteq> []" by auto
    then have "prefix (join_sep (rev (clean_out root))) (join_sep (rev (clean_out root) @ rev ?ys))"
      by (rule join_sep_prefix)
    then have "prefix (CHR ''/'' # join_sep (rev (clean_out root))) ?q"
      unfolding qr using True by (simp add: render_def)
    with r have "HasPrefix ?q root" by (simp add: HasPrefix_def)
    then show ?thesis unfolding q using ne ns by (simp add: resolveFilesystemPath_def)
  next
    case False
    have "cleaned (is_rooted root) (clean_out (root @ CHR ''/'' # fsPath))"
      using cleaned_clean_out [of "root @ CHR ''/'' # fsPath"] ne by (simp add: is_rooted_append)
    from render_rooted [OF this] have "\<not> is_rooted ?q"
      using False ne by (simp add: Clean_render is_rooted_append)
    then have "\<not> HasPrefix ?q ''/''" by (simp add: HasPrefix_slash)
    then show ?thesis unfolding q by (simp add: resolveFilesystemPath_def)
  qed
qed

theorem resolve_idempotent_below_root_witness:
  "Clean ''/mnt'' = ''/mnt'' \<and> stays_below 0 (split_sep ''/a/../b/./c'') \<and>
   resolveFilesystemPath ''/a/../b/./c'' ''/mnt'' = ''/mnt/b/c'' \<and>
   resolveFilesystemPath (resolveFilesystemPath ''/a/../b/./c'' ''/mnt'') ''/mnt''
     = resolveFilesystemPath ''/a/../b/./c'' ''/mnt''"
proof -
  have c: "Clean ''/mnt'' = ''/mnt''" by (simp add: Clean_def)
  have s: "stays_below 0 (split_sep ''/a/../b/./c'')" by simp
  have r: "resolveFilesystemPath ''/a/../b/./c'' ''/mnt'' = ''/mnt/b/c''"
    by (simp add: resolveFilesystemPath_def HasPrefix_def Clean_def)
  from resolve_idempotent_below_root [of "''/mnt''" "''/a/../b/./c''"] c s
  have "resolveFilesystemPath (resolveFilesystemPath ''/a/../b/./c'' ''/mnt'') ''/mnt''
     = resolveFilesystemPath ''/a/../b/./c'' ''/mnt''" by blast
  with c s r show ?thesis by blast
qed

theorem resolve_not_idempotent:
  "resolveFilesystemPath ''/x'' ''/mnt/./'' = ''/mnt/x'' \<and>
   resolveFilesystemPath (resolveFilesystemPath ''/x'' ''/mnt/./'') ''/mnt/./'' = ''/mnt/mnt/x'' \<and>
   resolveFilesystemPath (resolveFilesystemPath ''/x'' ''/mnt/./'') ''/mnt/./''
     \<noteq> resolveFilesystemPath ''/x'' ''/mnt/./'' \<and>
   resolveFilesystemPath (resolveFilesystemPath ''/../etc'' ''/mnt'') ''/mnt'' = ''/mnt/etc'' \<and>
   resolveFilesystemPath (resolveFilesystemPath ''/../etc'' ''/mnt'') ''/mnt''
     \<noteq> resolveFilesystemPath ''/../etc'' ''/mnt''"
  by (simp add: resolveFilesystemPath_def HasPrefix_def Clean_def)

text \<open>
  Containment where it holds. For an absolute root in cleaned form other than \<open>/\<close> and
  an absolute logical path that does not begin with the root and whose \<open>..\<close> segments
  never climb above the point where the path starts, the resolved path is the root
  itself or the root followed by a separator and further elements: a descendant of
  the root.
\<close>

theorem resolve_contained_below_root:
  assumes abs: "HasPrefix root ''/''" and cl: "Clean root = root" and ns: "root \<noteq> ''/''"
    and np: "\<not> HasPrefix fsPath root" and ab: "HasPrefix fsPath ''/''"
    and below: "stays_below 0 (split_sep fsPath)"
  shows "resolveFilesystemPath fsPath root = root \<or>
         (\<exists>rest. resolveFilesystemPath fsPath root = root @ CHR ''/'' # rest)"
proof -
  have rt: "is_rooted root" using abs by (simp add: HasPrefix_slash)
  then have ne: "root \<noteq> []" by (auto simp: is_rooted_def)
  let ?q = "Clean (root @ CHR ''/'' # fsPath)"
  let ?ys = "foldl (clean_elem True) [] (split_sep fsPath)"
  have q: "resolveFilesystemPath fsPath root = ?q"
    using ne ns np ab by (simp add: resolveFilesystemPath_def)
  have co: "clean_out (root @ CHR ''/'' # fsPath) = ?ys @ clean_out root"
    using foldl_stays_below [of "[]" "split_sep fsPath" True "clean_out root"] below ne rt
    by (simp add: clean_out_append del: clean_elem.simps)
  have qr: "?q = CHR ''/'' # join_sep (rev (clean_out root) @ rev ?ys)"
    using ne rt by (simp add: Clean_render is_rooted_append co render_def)
  have r: "root = CHR ''/'' # join_sep (rev (clean_out root))"
    using cl rt by (simp add: Clean_render render_def)
  with ns have st: "rev (clean_out root) \<noteq> []" by auto
  show ?thesis
  proof (cases "?ys = []")
    case True
    with qr r q show ?thesis by simp
  next
    case False
    then have "rev ?ys \<noteq> []" by simp
    from join_sep_append [OF st this] qr
    have "?q = (CHR ''/'' # join_sep (rev (clean_out root))) @ CHR ''/'' # join_sep (rev ?ys)"
      by simp
    with r q show ?thesis by metis
  qed
qed

theorem resolve_contained_below_root_witness:
  "HasPrefix ''/mnt'' ''/'' \<and> Clean ''/mnt'' = ''/mnt'' \<and> \<not> HasPrefix ''/lib/../etc/fw'' ''/mnt'' \<and>
   HasPrefix ''/lib/../etc/fw'' ''/'' \<and> stays_below 0 (split_sep ''/lib/../etc/fw'') \<and>
   resolveFilesystemPath ''/lib/../etc/fw'' ''/mnt'' = ''/mnt'' @ CHR ''/'' # ''etc/fw''"
proof -
  have a: "HasPrefix ''/mnt'' ''/''" and b: "Clean ''/mnt'' = ''/mnt''" and c: "''/mnt'' \<noteq> ''/''"
    and d: "\<not> HasPrefix ''/lib/../etc/fw'' ''/mnt''" and e: "HasPrefix ''/lib/../etc/fw'' ''/''"
    and f: "stays_below 0 (split_sep ''/lib/../etc/fw'')"
    by (simp_all add: HasPrefix_def Clean_def)
  have v: "resolveFilesystemPath ''/lib/../etc/fw'' ''/mnt'' = ''/mnt/etc/fw''"
    by (simp add: resolveFilesystemPath_def HasPrefix_def Clean_def)
  from resolve_contained_below_root [OF a b c d e f] v
  have "resolveFilesystemPath ''/lib/../etc/fw'' ''/mnt'' = ''/mnt'' @ CHR ''/'' # ''etc/fw''"
    by auto
  with a b d e f show ?thesis by blast
qed

section \<open>Properties of the dispatch\<close>

text \<open>
  C2, as the code has it. The claim (the selectors total, available and both are all
  served, and the response's fields follow the metric asked for) fails: the handler
  validates the path with \<open>validateDiskSpacePath\<close>, which refuses every length but 4.
  A disk-space query is served only for a path of length exactly 4 ending at
  disk-space, with both metrics: the response value then has exactly the fields
  \<open>path\<close>, \<open>total-mb\<close> and \<open>available-mb\<close>. The classifier \<open>getDiskSpaceField\<close> names
  \<open>both\<close> for length 4 and \<open>total\<close> or \<open>available\<close> for a length-5 path that ends in
  \<open>total-mb\<close> or \<open>available-mb\<close>, but the handler answers every disk-space path of
  another length than 4 with InvalidArgument, before the capacity provider is called.
\<close>

theorem disk_space_only_both:
  assumes "isDiskSpacePath path"
  shows
   "(length path = 4 \<longrightarrow> getDiskSpaceField path = Inr ''both'') \<and>
    (length path = 5 \<and> Name (path ! 4) = ''total-mb'' \<longrightarrow>
       getDiskSpaceField path = Inr ''total'') \<and>
    (length path = 5 \<and> Name (path ! 4) = ''available-mb'' \<longrightarrow>
       getDiskSpaceField path = Inr ''available'') \<and>
    (length path \<noteq> 4 \<longrightarrow>
       handleDiskSpaceRequest s fs path fsPath =
         ([], Inl (Status InvalidArgument (BadPath InvalidDiskSpacePath)))) \<and>
    (length path = 4 \<longrightarrow>
       (case GetDiskSpace fs (resolveFilesystemPath fsPath (rootFS s)) of
          Inl err \<Rightarrow>
            handleDiskSpaceRequest s fs path fsPath =
              ([CallGetDiskSpace (resolveFilesystemPath fsPath (rootFS s))],
               Inl (Status Internal (DiskSpaceFailed err)))
        | Inr info \<Rightarrow>
            (\<exists>v. handleDiskSpaceRequest s fs path fsPath =
                   ([CallGetDiskSpace (resolveFilesystemPath fsPath (rootFS s))],
                    Inr \<lparr>Path = path, Val = VObject v\<rparr>) \<and>
                 dom v = {''path'', ''total-mb'', ''available-mb''} \<and>
                 v ''path'' = Some (FString fsPath) \<and>
                 v ''total-mb'' = Some (FNumber (TotalMB info)) \<and>
                 v ''available-mb'' = Some (FNumber (AvailableMB info)))))"
  using assms
  by (auto simp: getDiskSpaceField_def handleDiskSpaceRequest_def validateDiskSpacePath_def
        Let_def split: sum.splits)

theorem disk_space_only_both_witness:
  "isDiskSpacePath (disk_space_path ''/host'' []) \<and>
   getDiskSpaceField (disk_space_path ''/host'' []) = Inr ''both'' \<and>
   (\<exists>v. handleDiskSpaceRequest \<lparr>rootFS = ''/''\<rparr> images_fs (disk_space_path ''/host'' []) ''/host''
          = ([CallGetDiskSpace ''/host''],
             Inr \<lparr>Path = disk_space_path ''/host'' [], Val = VObject v\<rparr>) \<and>
        dom v = {''path'', ''total-mb'', ''available-mb''} \<and>
        v ''total-mb'' = Some (FNumber 100) \<and> v ''available-mb'' = Some (FNumber 40))"
proof -
  have p: "isDiskSpacePath (disk_space_path ''/host'' [])"
    by (simp add: disk_space_path_def isDiskSpacePath_def isFilesystemPath_def)
  have l: "length (disk_space_path ''/host'' []) = 4"
    by (simp add: disk_space_path_def)
  have r: "resolveFilesystemPath ''/host'' (rootFS \<lparr>rootFS = ''/''\<rparr>) = ''/host''"
    by (simp add: resolveFilesystemPath_def)
  have g: "GetDiskSpace images_fs ''/host'' = Inr \<lparr>TotalMB = 100, AvailableMB = 40\<rparr>"
    by (simp add: images_fs_def)
  from disk_space_only_both [OF p, of "\<lparr>rootFS = ''/''\<rparr>" images_fs "''/host''"] l r g
  show ?thesis using p by auto
qed

theorem disk_space_metric_path_refused:
  "isDiskSpacePath (disk_space_path ''/host'' [''total-mb'']) \<and>
   getDiskSpaceField (disk_space_path ''/host'' [''total-mb'']) = Inr ''total'' \<and>
   handleFilesystemPath \<lparr>rootFS = ''/''\<rparr> images_fs (disk_space_path ''/host'' [''total-mb''])
     = ([], Inl (Status InvalidArgument (BadPath InvalidDiskSpacePath)))"
  by (simp add: disk_space_path_def isDiskSpacePath_def isFilesystemPath_def
        getDiskSpaceField_def handleFilesystemPath_def extractFilesystemPath_def
        handleDiskSpaceRequest_def validateDiskSpacePath_def)

text \<open>
  C3, as the code has it. The claim (every file-listing resource has a flag of its own
  and fails with a failed precondition when it is off) fails for the sonic-image
  resource, whose handler reads no flag. For the firmware resource, the one whose
  handler requires the gNOI File service: when the flag is off, every query fails with
  FailedPrecondition, and no call into the filesystem is made. The sonic-image handler
  answers the same whatever the configuration.
\<close>

theorem firmware_requires_gnoi_file:
  "(\<not> EnableGNOIFile global \<longrightarrow>
      handleFirmwarePath global s fs path
        = ([], Inl (Status FailedPrecondition RequiresGNOIFile))) \<and>
   handleSonicImagePath global s fs path = handleSonicImagePath global' s fs path"
  by (simp add: handleFirmwarePath_def handleSonicImagePath_def)

theorem firmware_requires_gnoi_file_witness:
  "\<not> EnableGNOIFile \<lparr>EnableGNOIFile = False\<rparr> \<and>
   handleFirmwarePath \<lparr>EnableGNOIFile = False\<rparr> \<lparr>rootFS = ''/''\<rparr> images_fs
       (files_path ''firmware'' ''/images'' [])
     = ([], Inl (Status FailedPrecondition RequiresGNOIFile))"
  using firmware_requires_gnoi_file
    [of "\<lparr>EnableGNOIFile = False\<rparr>" "\<lparr>rootFS = ''/''\<rparr>" images_fs
        "files_path ''firmware'' ''/images'' []"]
  by simp

theorem sonic_image_served_without_flag:
  "handleSonicImagePath \<lparr>EnableGNOIFile = False\<rparr> \<lparr>rootFS = ''/''\<rparr> images_fs
       (files_path ''sonic-image'' ''/images'' [''count''])
     = ([CallStat ''/images'', CallWalkDir ''/images''],
        Inr \<lparr>Path = files_path ''sonic-image'' ''/images'' [''count''], Val = VCount 1\<rparr>)"
  by (simp add: handleSonicImagePath_def extractSonicImageDirectory_def isSonicImagePath_def
        isSonicImageFilesPath_def handleSonicImageFilesRequest_def getSonicImageFileField_def
        GetSonicImageFileCount_def ListSonicImageFiles_def resolveFilesystemPath_def
        images_fs_def images_dir_def files_path_def WalkDir_def sonicImageWalkFn_def Rel_def
        Clean_def rel_elems_def Let_def)

text \<open>
  C8, as the code has it. The claim (a directory or filename parameter that is present
  but empty fails as a missing parameter, for every resource kind) fails on the server:
  its extractors only ask whether the key is there. On the server, extraction fails
  with the missing-parameter error exactly when the key (\<open>directory\<close> for firmware and
  sonic-image, \<open>path\<close> for filesystem) is absent from the third element, and a key that
  is present is returned as it is, the empty string included. The empty directory and
  the empty filename are refused by the client's helpers for firmware and sonic-image,
  before any request is sent.
\<close>

theorem missing_parameter_is_absent_key:
  "(isFirmwarePath path \<longrightarrow>
      (extractFirmwareDirectory path = Inl FirmwareDirectoryNotSpecified
         \<longleftrightarrow> Key (path ! 2) ''directory'' = None) \<and>
      (\<forall>v. Key (path ! 2) ''directory'' = Some v \<longrightarrow> extractFirmwareDirectory path = Inr v)) \<and>
   (isSonicImagePath path \<longrightarrow>
      (extractSonicImageDirectory path = Inl SonicImageDirectoryNotSpecified
         \<longleftrightarrow> Key (path ! 2) ''directory'' = None) \<and>
      (\<forall>v. Key (path ! 2) ''directory'' = Some v \<longrightarrow> extractSonicImageDirectory path = Inr v)) \<and>
   (isFilesystemPath path \<longrightarrow>
      (extractFilesystemPath path = Inl FilesystemPathNotSpecified
         \<longleftrightarrow> Key (path ! 2) ''path'' = None) \<and>
      (\<forall>v. Key (path ! 2) ''path'' = Some v \<longrightarrow> extractFilesystemPath path = Inr v)) \<and>
   client_GetFirmwareFiles c [] = Inl DirectoryRequired \<and>
   client_GetFirmwareFileCount c [] = Inl DirectoryRequired \<and>
   client_GetFirmwareFileInfo c [] filename = Inl DirectoryRequired \<and>
   (directory \<noteq> [] \<longrightarrow> client_GetFirmwareFileInfo c directory [] = Inl FilenameRequired) \<and>
   client_GetSonicImageFiles c [] = Inl DirectoryRequired \<and>
   client_GetSonicImageFileCount c [] = Inl DirectoryRequired \<and>
   client_GetSonicImageFileInfo c [] filename = Inl DirectoryRequired \<and>
   (directory \<noteq> [] \<longrightarrow> client_GetSonicImageFileInfo c directory [] = Inl FilenameRequired)"
  by (auto simp: extractFirmwareDirectory_def extractSonicImageDirectory_def
        extractFilesystemPath_def client_GetFirmwareFiles_def client_GetFirmwareFileCount_def
        client_GetFirmwareFileInfo_def client_GetSonicImageFiles_def
        client_GetSonicImageFileCount_def client_GetSonicImageFileInfo_def
        split: option.splits)

theorem missing_parameter_is_absent_key_witness:
  "isFirmwarePath
     [\<lparr>Name = ''sonic'', Key = Map.empty\<rparr>, \<lparr>Name = ''system'', Key = Map.empty\<rparr>,
      \<lparr>Name = ''firmware'', Key = Map.empty\<rparr>, \<lparr>Name = ''files'', Key = Map.empty\<rparr>] \<and>
   extractFirmwareDirectory
     [\<lparr>Name = ''sonic'', Key = Map.empty\<rparr>, \<lparr>Name = ''system'', Key = Map.empty\<rparr>,
      \<lparr>Name = ''firmware'', Key = Map.empty\<rparr>, \<lparr>Name = ''files'', Key = Map.empty\<rparr>]
     = Inl FirmwareDirectoryNotSpecified \<and>
   isSonicImagePath (files_path ''sonic-image'' ''/images'' []) \<and>
   extractSonicImageDirectory (files_path ''sonic-image'' ''/images'' []) = Inr ''/images'' \<and>
   isFilesystemPath (disk_space_path ''/host'' []) \<and>
   extractFilesystemPath (disk_space_path ''/host'' []) = Inr ''/host'' \<and>
   client_GetFirmwareFileInfo offline_client ''/images'' [] = Inl FilenameRequired \<and>
   client_GetSonicImageFileInfo offline_client ''/images'' [] = Inl FilenameRequired"
proof -
  let ?p = "[\<lparr>Name = ''sonic'', Key = Map.empty\<rparr>, \<lparr>Name = ''system'', Key = Map.empty\<rparr>,
      \<lparr>Name = ''firmware'', Key = Map.empty\<rparr>, \<lparr>Name = ''files'', Key = Map.empty\<rparr>]"
  have a: "isFirmwarePath ?p" by (simp add: isFirmwarePath_def)
  have b: "isSonicImagePath (files_path ''sonic-image'' ''/images'' [])"
    by (simp add: isSonicImagePath_def files_path_def)
  have c: "isFilesystemPath (disk_space_path ''/host'' [])"
    by (simp add: isFilesystemPath_def disk_space_path_def)
  have ka: "Key (?p ! 2) ''directory'' = None" by simp
  have kb: "Key (files_path ''sonic-image'' ''/images'' [] ! 2) ''directory'' = Some ''/images''"
    by (simp add: files_path_def)
  have kc: "Key (disk_space_path ''/host'' [] ! 2) ''path'' = Some ''/host''"
    by (simp add: disk_space_path_def)
  have d: "''/images'' \<noteq> []" by simp
  from missing_parameter_is_absent_key [of ?p] a ka
  have 1: "extractFirmwareDirectory ?p = Inl FirmwareDirectoryNotSpecified" by blast
  from missing_parameter_is_absent_key [of "files_path ''sonic-image'' ''/images'' []"] b kb
  have 2: "extractSonicImageDirectory (files_path ''sonic-image'' ''/images'' []) = Inr ''/images''"
    by blast
  from missing_parameter_is_absent_key [of "disk_space_path ''/host'' []"] c kc
  have 3: "extractFilesystemPath (disk_space_path ''/host'' []) = Inr ''/host''" by blast
  from missing_parameter_is_absent_key [of _ offline_client _ "''/images''"] d
  have 4: "client_GetFirmwareFileInfo offline_client ''/images'' [] = Inl FilenameRequired"
    and 5: "client_GetSonicImageFileInfo offline_client ''/images'' [] = Inl FilenameRequired"
    by blast+
  from a b c 1 2 3 4 5 show ?thesis by blast
qed

theorem empty_directory_key_is_extracted:
  "isFirmwareFilesPath (files_path ''firmware'' [] []) \<and>
   Key (files_path ''firmware'' [] [] ! 2) ''directory'' = Some [] \<and>
   extractFirmwareDirectory (files_path ''firmware'' [] []) = Inr [] \<and>
   extractSonicImageDirectory (files_path ''sonic-image'' [] []) = Inr [] \<and>
   extractFilesystemPath (disk_space_path [] []) = Inr []"
  by (simp add: files_path_def disk_space_path_def isFirmwareFilesPath_def isFirmwarePath_def
        isSonicImagePath_def isFilesystemPath_def extractFirmwareDirectory_def
        extractSonicImageDirectory_def extractFilesystemPath_def)


section \<open>Properties of the directory inspector\<close>

text \<open>
  C9. An error on an entry below the root (its \<open>Info()\<close> fails, or the directory cannot
  be read) is skipped and does not end the walk: the listing fails exactly when
  \<open>os.Stat\<close> of the resolved root fails, and when the walk starts at the root's entry
  the listing succeeds with the records of the entries the walk reaches whose
  \<open>Info()\<close> succeeds, each under its path relative to the root. This holds for
  \<open>ListFirmwareFiles\<close> and for \<open>ListSonicImageFiles\<close>.
\<close>

theorem walk_errors_are_skipped:
  "((\<exists>err. snd (ListFirmwareFiles root fs directory) = Inl err)
      \<longleftrightarrow> os_Stat fs (resolveFilesystemPath directory root) \<noteq> None) \<and>
   ((\<exists>err. snd (ListSonicImageFiles directory root fs) = Inl err)
      \<longleftrightarrow> os_Stat fs (resolveFilesystemPath directory root) \<noteq> None) \<and>
   (os_Stat fs (resolveFilesystemPath directory root) = None \<and>
    os_Lstat fs (resolveFilesystemPath directory root) = Inr d \<and> valid_names d \<longrightarrow>
      snd (ListFirmwareFiles root fs directory) = Inr (records_of (descendants d)) \<and>
      snd (ListSonicImageFiles directory root fs) = Inr (records_of (descendants d)) \<and>
      (\<forall>(names, e) \<in> set (descendants d). \<forall>info. entry_Info e = Inr info \<longrightarrow>
         file_record (join_sep names) info \<in> set (records_of (descendants d))))"
proof -
  let ?p = "resolveFilesystemPath directory root"
  have a: "(\<exists>err. snd (ListFirmwareFiles root fs directory) = Inl err) \<longleftrightarrow> os_Stat fs ?p \<noteq> None"
    unfolding ListFirmwareFiles_snd by (auto split: option.splits os_error.splits)
  have b: "(\<exists>err. snd (ListSonicImageFiles directory root fs) = Inl err) \<longleftrightarrow> os_Stat fs ?p \<noteq> None"
    unfolding ListSonicImageFiles_snd by (auto split: option.splits os_error.splits)
  have c: "snd (ListFirmwareFiles root fs directory) = Inr (records_of (descendants d))"
    and c': "snd (ListSonicImageFiles directory root fs) = Inr (records_of (descendants d))"
    if "os_Stat fs ?p = None" "os_Lstat fs ?p = Inr d" "valid_names d"
    using that
    by (simp_all add: ListFirmwareFiles_snd ListSonicImageFiles_snd WalkDir_firmware
          WalkDir_sonic_image)
  have m: "\<forall>(names, e) \<in> set (descendants d). \<forall>info. entry_Info e = Inr info \<longrightarrow>
         file_record (join_sep names) info \<in> set (records_of (descendants d))"
    by (auto intro: records_of_mem)
  from a b c c' m show ?thesis by blast
qed

theorem walk_errors_are_skipped_witness:
  "os_Stat faulty_fs (resolveFilesystemPath ''/fw'' ''/'') = None \<and>
   os_Lstat faulty_fs (resolveFilesystemPath ''/fw'' ''/'') = Inr faulty_dir \<and>
   valid_names faulty_dir \<and>
   snd (ListFirmwareFiles ''/'' faulty_fs ''/fw'') =
     Inr [\<lparr>FileName = ''a.bin'', Size = 10, ModTime = 0, IsDirectory = False,
            Permissions = ''-rw-r--r--''\<rparr>,
          \<lparr>FileName = ''sub'', Size = 4096, ModTime = 0, IsDirectory = True,
            Permissions = ''drwxr-xr-x''\<rparr>,
          \<lparr>FileName = ''sub/c.bin'', Size = 5, ModTime = 0, IsDirectory = False,
            Permissions = ''-rw-r--r--''\<rparr>]"
proof -
  have r: "resolveFilesystemPath ''/fw'' ''/'' = ''/fw''" by (simp add: resolveFilesystemPath_def)
  have s: "os_Stat faulty_fs (resolveFilesystemPath ''/fw'' ''/'') = None"
    and l: "os_Lstat faulty_fs (resolveFilesystemPath ''/fw'' ''/'') = Inr faulty_dir"
    unfolding r by (simp_all add: faulty_fs_def)
  have d: "descendants faulty_dir =
     [([''a.bin''], DirEntry ''a.bin'' False
          (Inr \<lparr>info_Size = 10, info_ModTime = 0, info_IsDir = False,
                info_Mode = ''-rw-r--r--''\<rparr>) None []),
      ([''broken''], DirEntry ''broken'' False (Inl ErrNotExist) None []),
      ([''sub''], DirEntry ''sub'' True
          (Inr \<lparr>info_Size = 4096, info_ModTime = 0, info_IsDir = True,
                info_Mode = ''drwxr-xr-x''\<rparr>)
          (Some (ErrOther ''input/output error''))
          [DirEntry ''c.bin'' False
             (Inr \<lparr>info_Size = 5, info_ModTime = 0, info_IsDir = False,
                   info_Mode = ''-rw-r--r--''\<rparr>)
             None []]),
      ([''sub'', ''c.bin''], DirEntry ''c.bin'' False
             (Inr \<lparr>info_Size = 5, info_ModTime = 0, info_IsDir = False,
                   info_Mode = ''-rw-r--r--''\<rparr>)
             None [])]"
    by (simp add: descendants_def faulty_dir_def)
  have v: "valid_names faulty_dir"
    unfolding valid_names_def d by (simp add: valid_name_def)
  from walk_errors_are_skipped [of "''/''" faulty_fs "''/fw''" faulty_dir] s l v
  have "snd (ListFirmwareFiles ''/'' faulty_fs ''/fw'') = Inr (records_of (descendants faulty_dir))"
    by blast
  then show ?thesis using s l v unfolding d by (simp add: file_record_def)
qed

text \<open>
  C6, as the code has it. The claim (for every existing directory the listing has
  exactly one record for every descendant, and the count is the number of
  descendants) fails where an entry cannot be read, since such an entry is skipped.
  For a directory that the walk enters as a directory (the entry \<open>os.Lstat\<close> gives at
  the resolved path is a directory, not a symbolic link to one: \<open>WalkDir\<close> follows
  no link, also not at its root) and below which no entry fails (every directory is
  read without an error and every descendant's \<open>Info()\<close> succeeds), the listing
  holds no record of the root and exactly one record for each descendant, in the
  order of the walk: the record of its \<open>Info()\<close> under its path relative to the root
  (no two records under one name, when no directory holds two entries of one name);
  the count is the length of the listing, the number of descendants.
\<close>

theorem list_one_record_per_descendant:
  assumes stat: "os_Stat fs (resolveFilesystemPath directory root) = None"
    and lstat: "os_Lstat fs (resolveFilesystemPath directory root) = Inr d"
    and isdir: "entry_IsDir d"
    and names: "valid_names d" and readable: "no_entry_errors d"
  shows "\<exists>files.
           snd (ListFirmwareFiles root fs directory) = Inr files \<and>
           snd (ListSonicImageFiles directory root fs) = Inr files \<and>
           list_all2 (\<lambda>f (names, e). \<exists>info. entry_Info e = Inr info \<and>
                                       f = file_record (join_sep names) info)
             files (descendants d) \<and>
           length files = length (descendants d) \<and>
           (distinct_names d \<longrightarrow> distinct (map FileName files)) \<and>
           snd (GetFirmwareFileCount root fs directory) = Inr (int (length (descendants d))) \<and>
           snd (GetSonicImageFileCount directory root fs) = Inr (int (length (descendants d)))"
proof -
  let ?p = "resolveFilesystemPath directory root"
  let ?files = "records_of (descendants d)"
  have a: "snd (ListFirmwareFiles root fs directory) = Inr ?files"
    using stat lstat names by (simp add: ListFirmwareFiles_snd WalkDir_firmware)
  have b: "snd (ListSonicImageFiles directory root fs) = Inr ?files"
    using stat lstat names by (simp add: ListSonicImageFiles_snd WalkDir_sonic_image)
  have "\<forall>(names, e) \<in> set (descendants d). \<exists>info. entry_Info e = Inr info"
    using readable by (auto simp: no_entry_errors_def)
  then have c: "list_all2 (\<lambda>f (names, e). \<exists>info. entry_Info e = Inr info \<and>
                                       f = file_record (join_sep names) info)
             ?files (descendants d)"
    by (rule records_of_all)
  then have l: "length ?files = length (descendants d)" by (rule list_all2_lengthD)
  have "snd (GetFirmwareFileCount root fs directory) = Inr (int (length (descendants d)))"
    and "snd (GetSonicImageFileCount directory root fs) = Inr (int (length (descendants d)))"
    by (simp_all add: count_is_length a b l)
  moreover have "distinct_names d \<longrightarrow> distinct (map FileName ?files)"
    using listing_names_distinct [OF names] by blast
  ultimately show ?thesis using a b c l by blast
qed

theorem list_one_record_per_descendant_witness:
  "os_Stat scenario_fs (resolveFilesystemPath ''/lib/firmware'' ''/mnt'') = None \<and>
   os_Lstat scenario_fs (resolveFilesystemPath ''/lib/firmware'' ''/mnt'') = Inr scenario_dir \<and>
   entry_IsDir scenario_dir \<and>
   valid_names scenario_dir \<and> no_entry_errors scenario_dir \<and>
   length (descendants scenario_dir) = 4 \<and>
   snd (GetFirmwareFileCount ''/mnt'' scenario_fs ''/lib/firmware'') = Inr 4 \<and>
   snd (GetSonicImageFileCount ''/lib/firmware'' ''/mnt'' scenario_fs) = Inr 4"
proof -
  have r: "resolveFilesystemPath ''/lib/firmware'' ''/mnt'' = ''/mnt/lib/firmware''"
    by (simp add: resolveFilesystemPath_def HasPrefix_def Clean_def)
  have s: "os_Stat scenario_fs (resolveFilesystemPath ''/lib/firmware'' ''/mnt'') = None"
    and l: "os_Lstat scenario_fs (resolveFilesystemPath ''/lib/firmware'' ''/mnt'') = Inr scenario_dir"
    unfolding r by (simp_all add: scenario_fs_def)
  have v: "valid_names scenario_dir"
    unfolding valid_names_def scenario_descendants by (simp add: valid_name_def)
  have n: "no_entry_errors scenario_dir"
    unfolding no_entry_errors_def scenario_descendants
    by (simp add: readable_def scenario_dir_def)
  have i: "entry_IsDir scenario_dir" by (simp add: scenario_dir_def)
  have len: "length (descendants scenario_dir) = 4" unfolding scenario_descendants by simp
  from list_one_record_per_descendant [OF s l i v n] len
  have "snd (GetFirmwareFileCount ''/mnt'' scenario_fs ''/lib/firmware'') = Inr 4"
    and "snd (GetSonicImageFileCount ''/lib/firmware'' ''/mnt'' scenario_fs) = Inr 4"
    by auto
  with s l i v n len show ?thesis by blast
qed

theorem unreadable_entry_is_not_listed:
  "os_Stat faulty_fs (resolveFilesystemPath ''/fw'' ''/'') = None \<and>
   os_Lstat faulty_fs (resolveFilesystemPath ''/fw'' ''/'') = Inr faulty_dir \<and>
   entry_IsDir faulty_dir \<and>
   length (descendants faulty_dir) = 4 \<and>
   snd (GetFirmwareFileCount ''/'' faulty_fs ''/fw'') = Inr 3 \<and>
   snd (GetSonicImageFileCount ''/fw'' ''/'' faulty_fs) = Inr 3 \<and>
   snd (GetFirmwareFileCount ''/'' faulty_fs ''/fw'')
     \<noteq> Inr (int (length (descendants faulty_dir)))"
  by (simp add: resolveFilesystemPath_def faulty_fs_def faulty_dir_def descendants_def
        GetFirmwareFileCount_def ListFirmwareFiles_def GetSonicImageFileCount_def
        ListSonicImageFiles_def WalkDir_def firmwareWalkFn_def sonicImageWalkFn_def Rel_def
        Clean_def rel_elems_def Let_def)

text \<open>
  A root that the walk does not enter. When \<open>os.Stat\<close> of the resolved path succeeds
  but the entry \<open>os.Lstat\<close> gives there is no directory (a file, or a symbolic link to
  a directory), the walk visits the root only: the listing succeeds and is empty, and
  the count is 0, whatever the directory behind the link holds.
\<close>

theorem list_of_unentered_root_is_empty:
  assumes stat: "os_Stat fs (resolveFilesystemPath directory root) = None"
    and lstat: "os_Lstat fs (resolveFilesystemPath directory root) = Inr d"
    and nodir: "\<not> entry_IsDir d"
  shows "snd (ListFirmwareFiles root fs directory) = Inr [] \<and>
         snd (ListSonicImageFiles directory root fs) = Inr [] \<and>
         snd (GetFirmwareFileCount root fs directory) = Inr 0 \<and>
         snd (GetSonicImageFileCount directory root fs) = Inr 0"
proof -
  have d: "descendants d = []" using nodir by (cases d) (simp add: descendants_def)
  then have v: "valid_names d" by (simp add: valid_names_def)
  have a: "snd (ListFirmwareFiles root fs directory) = Inr []"
    using stat lstat v d by (simp add: ListFirmwareFiles_snd WalkDir_firmware)
  have b: "snd (ListSonicImageFiles directory root fs) = Inr []"
    using stat lstat v d by (simp add: ListSonicImageFiles_snd WalkDir_sonic_image)
  from a b show ?thesis by (simp add: count_is_length)
qed

theorem list_of_unentered_root_is_empty_witness:
  "os_Stat link_fs (resolveFilesystemPath ''/fw/current'' ''/'') = None \<and>
   os_Lstat link_fs (resolveFilesystemPath ''/fw/current'' ''/'') = Inr link_entry \<and>
   \<not> entry_IsDir link_entry \<and>
   snd (ListFirmwareFiles ''/'' link_fs ''/fw/current'') = Inr [] \<and>
   snd (GetSonicImageFileCount ''/fw/current'' ''/'' link_fs) = Inr 0"
proof -
  have r: "resolveFilesystemPath ''/fw/current'' ''/'' = ''/fw/current''"
    by (simp add: resolveFilesystemPath_def)
  have s: "os_Stat link_fs (resolveFilesystemPath ''/fw/current'' ''/'') = None"
    and l: "os_Lstat link_fs (resolveFilesystemPath ''/fw/current'' ''/'') = Inr link_entry"
    unfolding r by (simp_all add: link_fs_def)
  have n: "\<not> entry_IsDir link_entry" by (simp add: link_entry_def)
  from list_of_unentered_root_is_empty [OF s l n] s l n show ?thesis by blast
qed

text \<open>
  C7. \<open>GetFirmwareFileInfo\<close> and \<open>GetSonicImageFileInfo\<close> fail with the not-found error
  exactly when the listing succeeds and has no record whose name is the file name,
  compared character by character with the whole relative path. When the listing has
  such a record, the result is a record of the listing with that name, the only one
  when the names of the listing are distinct. They are distinct whenever the walk
  starts at the root's entry, the names of the entries are file names and no
  directory holds two entries of one name.
\<close>

theorem file_info_lookup:
  "(snd (GetFirmwareFileInfo root fs directory filename) = Inl (FileNotFound filename)
      \<longleftrightarrow> (\<exists>files. snd (ListFirmwareFiles root fs directory) = Inr files \<and>
                   filename \<notin> FileName ` set files)) \<and>
   (snd (GetSonicImageFileInfo directory filename root fs) = Inl (FileNotFound filename)
      \<longleftrightarrow> (\<exists>files. snd (ListSonicImageFiles directory root fs) = Inr files \<and>
                   filename \<notin> FileName ` set files)) \<and>
   (snd (ListFirmwareFiles root fs directory) = Inr files \<and> filename \<in> FileName ` set files
      \<longrightarrow> (\<exists>f \<in> set files. FileName f = filename \<and>
             snd (GetFirmwareFileInfo root fs directory filename) = Inr f \<and>
             (distinct (map FileName files) \<longrightarrow>
                (\<forall>g \<in> set files. FileName g = filename \<longrightarrow> g = f)))) \<and>
   (snd (ListSonicImageFiles directory root fs) = Inr files \<and> filename \<in> FileName ` set files
      \<longrightarrow> (\<exists>f \<in> set files. FileName f = filename \<and>
             snd (GetSonicImageFileInfo directory filename root fs) = Inr f \<and>
             (distinct (map FileName files) \<longrightarrow>
                (\<forall>g \<in> set files. FileName g = filename \<longrightarrow> g = f)))) \<and>
   (os_Stat fs (resolveFilesystemPath directory root) = None \<and>
    os_Lstat fs (resolveFilesystemPath directory root) = Inr d \<and>
    valid_names d \<and> distinct_names d
      \<longrightarrow> (\<exists>files. snd (ListFirmwareFiles root fs directory) = Inr files \<and>
                  snd (ListSonicImageFiles directory root fs) = Inr files \<and>
                  distinct (map FileName files)))"
proof -
  have a: "snd (GetFirmwareFileInfo root fs directory filename) = Inl (FileNotFound filename)
      \<longleftrightarrow> (\<exists>files. snd (ListFirmwareFiles root fs directory) = Inr files \<and>
                   filename \<notin> FileName ` set files)"
    using list_error_not_FileNotFound(1) [of root fs directory filename]
    by (auto simp: info_is_lookup lookForFile_None [symmetric] split: sum.splits option.splits)
  have b: "snd (GetSonicImageFileInfo directory filename root fs) = Inl (FileNotFound filename)
      \<longleftrightarrow> (\<exists>files. snd (ListSonicImageFiles directory root fs) = Inr files \<and>
                   filename \<notin> FileName ` set files)"
    using list_error_not_FileNotFound(2) [of directory root fs filename]
    by (auto simp: info_is_lookup lookForFile_None [symmetric] split: sum.splits option.splits)
  have c: "\<exists>f \<in> set files. FileName f = filename \<and>
             snd (GetFirmwareFileInfo root fs directory filename) = Inr f \<and>
             (distinct (map FileName files) \<longrightarrow>
                (\<forall>g \<in> set files. FileName g = filename \<longrightarrow> g = f))"
    if "snd (ListFirmwareFiles root fs directory) = Inr files" "filename \<in> FileName ` set files"
    using lookup_found [OF that(2)] that(1) by (auto simp: info_is_lookup)
  have c': "\<exists>f \<in> set files. FileName f = filename \<and>
             snd (GetSonicImageFileInfo directory filename root fs) = Inr f \<and>
             (distinct (map FileName files) \<longrightarrow>
                (\<forall>g \<in> set files. FileName g = filename \<longrightarrow> g = f))"
    if "snd (ListSonicImageFiles directory root fs) = Inr files" "filename \<in> FileName ` set files"
    using lookup_found [OF that(2)] that(1) by (auto simp: info_is_lookup)
  have e: "\<exists>files. snd (ListFirmwareFiles root fs directory) = Inr files \<and>
                  snd (ListSonicImageFiles directory root fs) = Inr files \<and>
                  distinct (map FileName files)"
    if "os_Stat fs (resolveFilesystemPath directory root) = None"
      "os_Lstat fs (resolveFilesystemPath directory root) = Inr d"
      "valid_names d" "distinct_names d"
    using that listing_names_distinct [OF that(3,4)]
    by (simp add: ListFirmwareFiles_snd ListSonicImageFiles_snd WalkDir_firmware
          WalkDir_sonic_image)
  from a b c c' e show ?thesis by blast
qed

theorem file_info_lookup_witness:
  "os_Stat scenario_fs (resolveFilesystemPath ''/lib/firmware'' ''/mnt'') = None \<and>
   os_Lstat scenario_fs (resolveFilesystemPath ''/lib/firmware'' ''/mnt'') = Inr scenario_dir \<and>
   valid_names scenario_dir \<and> distinct_names scenario_dir \<and>
   snd (ListFirmwareFiles ''/mnt'' scenario_fs ''/lib/firmware'') =
     Inr (records_of (descendants scenario_dir)) \<and>
   ''sub/c.bin'' \<in> FileName ` set (records_of (descendants scenario_dir)) \<and>
   ''C.BIN'' \<notin> FileName ` set (records_of (descendants scenario_dir)) \<and>
   snd (GetFirmwareFileInfo ''/mnt'' scenario_fs ''/lib/firmware'' ''sub/c.bin'') =
     Inr \<lparr>FileName = ''sub/c.bin'', Size = 5, ModTime = 0, IsDirectory = False,
          Permissions = ''-rw-r--r--''\<rparr> \<and>
   snd (GetFirmwareFileInfo ''/mnt'' scenario_fs ''/lib/firmware'' ''C.BIN'') =
     Inl (FileNotFound ''C.BIN'')"
proof -
  let ?files = "records_of (descendants scenario_dir)"
  have r: "resolveFilesystemPath ''/lib/firmware'' ''/mnt'' = ''/mnt/lib/firmware''"
    by (simp add: resolveFilesystemPath_def HasPrefix_def Clean_def)
  have s: "os_Stat scenario_fs (resolveFilesystemPath ''/lib/firmware'' ''/mnt'') = None"
    and l: "os_Lstat scenario_fs (resolveFilesystemPath ''/lib/firmware'' ''/mnt'') = Inr scenario_dir"
    unfolding r by (simp_all add: scenario_fs_def)
  have v: "valid_names scenario_dir"
    unfolding valid_names_def scenario_descendants by (simp add: valid_name_def)
  have dn: "distinct_names scenario_dir" by (simp add: scenario_dir_def)
  have li: "snd (ListFirmwareFiles ''/mnt'' scenario_fs ''/lib/firmware'') = Inr ?files"
    using s l v by (simp add: ListFirmwareFiles_snd WalkDir_firmware)
  have fs: "?files =
     [\<lparr>FileName = ''a.bin'', Size = 10, ModTime = 0, IsDirectory = False,
        Permissions = ''-rw-r--r--''\<rparr>,
      \<lparr>FileName = ''b.fw'', Size = 20, ModTime = 0, IsDirectory = False,
        Permissions = ''-rw-r--r--''\<rparr>,
      \<lparr>FileName = ''sub'', Size = 4096, ModTime = 0, IsDirectory = True,
        Permissions = ''drwxr-xr-x''\<rparr>,
      \<lparr>FileName = ''sub/c.bin'', Size = 5, ModTime = 0, IsDirectory = False,
        Permissions = ''-rw-r--r--''\<rparr>]"
    unfolding scenario_descendants by (simp add: file_record_def)
  have p: "''sub/c.bin'' \<in> FileName ` set ?files" and a: "''C.BIN'' \<notin> FileName ` set ?files"
    unfolding fs by simp_all
  from file_info_lookup [of "''/mnt''" scenario_fs "''/lib/firmware''" "''sub/c.bin''" ?files] li p
  obtain f where "f \<in> set ?files" "FileName f = ''sub/c.bin''"
    and g: "snd (GetFirmwareFileInfo ''/mnt'' scenario_fs ''/lib/firmware'' ''sub/c.bin'') = Inr f"
    by blast
  then have "f = \<lparr>FileName = ''sub/c.bin'', Size = 5, ModTime = 0, IsDirectory = False,
          Permissions = ''-rw-r--r--''\<rparr>"
    unfolding fs by auto
  with g have 1: "snd (GetFirmwareFileInfo ''/mnt'' scenario_fs ''/lib/firmware'' ''sub/c.bin'') =
     Inr \<lparr>FileName = ''sub/c.bin'', Size = 5, ModTime = 0, IsDirectory = False,
          Permissions = ''-rw-r--r--''\<rparr>" by simp
  from file_info_lookup [of "''/mnt''" scenario_fs "''/lib/firmware''" "''C.BIN''"] li a
  have 2: "snd (GetFirmwareFileInfo ''/mnt'' scenario_fs ''/lib/firmware'' ''C.BIN'') =
     Inl (FileNotFound ''C.BIN'')" by blast
  from s l v dn li p a 1 2 show ?thesis by blast
qed

end
